theory Spec2Isabelle
  imports Main
begin

section \<open>Python values and exceptions\<close>

text \<open>
  The disassembler is a Python program. Its exceptions are modelled as values of
  \<open>py_error\<close>; a function that can raise returns \<open>py_error + 'a\<close>, with \<open>Inl\<close> for the
  exception. \<open>TypeError\<close> carries its message, since the program raises it both for a
  device mismatch and (through \<open>range(None)\<close>) for a missing fuse count.
\<close>

datatype py_error = IndexError | ValueError | TypeError string

text \<open>
  A fuse map is a Python list of ints. All indices the program computes are
  non-negative, so reading \<open>fusemap[i]\<close> raises IndexError exactly when \<open>i\<close> is not
  below the length.
\<close>

type_synonym fusemap = "int list"

definition getitem :: "'a list \<Rightarrow> nat \<Rightarrow> py_error + 'a" where
  "getitem xs i = (if i < length xs then Inr (xs ! i) else Inl IndexError)"

section \<open>Term decoder\<close>

text \<open>\<open>range(a, b, k)\<close> for non-negative \<open>a\<close>, \<open>b\<close> and a positive step \<open>k\<close>.\<close>

definition range3 :: "nat \<Rightarrow> nat \<Rightarrow> nat \<Rightarrow> nat list" where
  "range3 a b k = map (\<lambda>j. a + k * j) [0..<(b - a + (k - 1)) div k]"

text \<open>
  \<^verbatim>\<open>
  def is_term_nonzero(fusemap, indices):
      for i in range(indices[0], indices[1], 2):
          if fusemap[i] == 0 and fusemap[i+1] == 0:
              return False
      return True
  \<close>
  The \<open>and\<close> reads \<open>fusemap[i+1]\<close> only when \<open>fusemap[i]\<close> is 0.
\<close>

fun term_loop :: "fusemap \<Rightarrow> nat list \<Rightarrow> py_error + bool" where
  "term_loop fm [] = Inr True"
| "term_loop fm (i # rest) =
     (case getitem fm i of
        Inl e \<Rightarrow> Inl e
      | Inr a \<Rightarrow>
          if a = 0 then
            (case getitem fm (i + 1) of
               Inl e \<Rightarrow> Inl e
             | Inr b \<Rightarrow> if b = 0 then Inr False else term_loop fm rest)
          else term_loop fm rest)"

definition is_term_nonzero :: "fusemap \<Rightarrow> nat \<times> nat \<Rightarrow> py_error + bool" where
  "is_term_nonzero fm indices = term_loop fm (range3 (fst indices) (snd indices) 2)"

text \<open>
  \<^verbatim>\<open>
  def collect_and_terms(fusemap, indices):
      return ANDList([i for i in range(indices[1] - indices[0])
                      if fusemap[indices[0]+i] == 0])
  \<close>
\<close>

fun collect_loop :: "fusemap \<Rightarrow> nat \<Rightarrow> nat list \<Rightarrow> py_error + nat list" where
  "collect_loop fm s [] = Inr []"
| "collect_loop fm s (i # rest) =
     (case getitem fm (s + i) of
        Inl e \<Rightarrow> Inl e
      | Inr a \<Rightarrow>
          (case collect_loop fm s rest of
             Inl e \<Rightarrow> Inl e
           | Inr r \<Rightarrow> Inr (if a = 0 then i # r else r)))"

definition collect_and_terms :: "fusemap \<Rightarrow> nat \<times> nat \<Rightarrow> py_error + nat list" where
  "collect_and_terms fm indices =
     collect_loop fm (fst indices) [0..<snd indices - fst indices]"

section \<open>Device model\<close>

subsection \<open>Expressions, pins and names\<close>

text \<open>
  \<open>ANDList\<close> and \<open>ORList\<close> are list subclasses used as tags: an \<open>ANDList\<close> holds
  literal indices, an \<open>ORList\<close> holds \<open>ANDList\<close>s. An equation is a pair of a signal
  name and one of the two.
\<close>

datatype expr = ANDList "nat list" | ORList "nat list list"

type_synonym eqn = "string \<times> expr"

definition bind_err :: "py_error + 'a \<Rightarrow> ('a \<Rightarrow> py_error + 'b) \<Rightarrow> py_error + 'b" where
  "bind_err m f = (case m of Inl e \<Rightarrow> Inl e | Inr x \<Rightarrow> f x)"

text \<open>
  \<^verbatim>\<open>
  def inverted(x):
      if x[0] == "!":
          return x[1:]
      return "!" + x
  \<close>
\<close>

definition inverted :: "string \<Rightarrow> py_error + string" where
  "inverted x =
     (case x of
        [] \<Rightarrow> Inl IndexError
      | c # r \<Rightarrow> if c = CHR ''!'' then Inr r else Inr (CHR ''!'' # x))"

text \<open>Decimal rendering of \<open>%d\<close>, and of \<open>%02d\<close> and \<open>%2d\<close> for non-negative numbers.\<close>

definition digit_char :: "nat \<Rightarrow> char" where
  "digit_char n = ''0123456789'' ! n"

fun dec_nat :: "nat \<Rightarrow> string" where
  "dec_nat n = (if n < 10 then [digit_char n] else dec_nat (n div 10) @ [digit_char (n mod 10)])"

declare dec_nat.simps [simp del]

definition dec_int :: "int \<Rightarrow> string" where
  "dec_int i = (if i < 0 then CHR ''-'' # dec_nat (nat (- i)) else dec_nat (nat i))"

definition fmt_02d :: "nat \<Rightarrow> string" where
  "fmt_02d n = (if n < 10 then CHR ''0'' # dec_nat n else dec_nat n)"

definition fmt_2d :: "nat \<Rightarrow> string" where
  "fmt_2d n = (if n < 10 then CHR '' '' # dec_nat n else dec_nat n)"

text \<open>
  \<^verbatim>\<open>
  class PALBase:
      def __init__(self, fusemap, pinmap):
          self.fusemap = fusemap
          if pinmap is not None:
              self.pinmap = pinmap
          else:
              self.pinmap = ["PIN%02d" % x for x in range(1, 21)]
      def get_pin_name(self, pin):
          return self.pinmap[pin-1]
  \<close>
  For \<open>pin = 0\<close> the index is \<open>-1\<close>, which Python reads as the last element.
\<close>

record pal_base =
  fusemap :: "int list"
  pinmap :: "string list"

definition PALBase_init :: "int list \<Rightarrow> string list option \<Rightarrow> pal_base" where
  "PALBase_init fm pm =
     \<lparr>fusemap = fm,
      pinmap = (case pm of Some names \<Rightarrow> names
                | None \<Rightarrow> map (\<lambda>x. ''PIN'' @ fmt_02d x) [1..<21])\<rparr>"

definition get_pin_name :: "pal_base \<Rightarrow> nat \<Rightarrow> py_error + string" where
  "get_pin_name d p =
     (if p = 0 then (if pinmap d = [] then Inl IndexError else Inr (last (pinmap d)))
      else getitem (pinmap d) (p - 1))"

text \<open>
  \<^verbatim>\<open>
  def get_input_names(self):
      names = []
      for pin, inv in self.get_input_map():
          name = self.get_pin_name(pin)
          if inv:
              names.append(inverted(name))
              names.append(name)
          else:
              names.append(name)
              names.append(inverted(name))
      return names
  \<close>
  The input map is variant specific and is passed in already evaluated.
\<close>

fun input_names_loop :: "pal_base \<Rightarrow> (nat \<times> bool) list \<Rightarrow> py_error + string list" where
  "input_names_loop d [] = Inr []"
| "input_names_loop d ((p, invert) # rest) =
     bind_err (get_pin_name d p) (\<lambda>name.
     bind_err (inverted name) (\<lambda>iname.
     bind_err (input_names_loop d rest) (\<lambda>names.
       Inr ((if invert then [iname, name] else [name, iname]) @ names))))"

subsection \<open>Macrocell tables\<close>

record olmc =
  pin :: nat
  oe_fuses :: "nat \<times> nat"
  terms_fuses :: "(nat \<times> nat) list"

record g_olmc = olmc +
  ac1_fuse :: nat
  xor_fuse :: nat

definition term_rows :: "nat \<Rightarrow> nat \<Rightarrow> (nat \<times> nat) list" where
  \<comment> \<open>\<open>[(s, s+32) for s in range(a, b, 32)]\<close>\<close>
  "term_rows a b = map (\<lambda>s. (s, s + 32)) (range3 a b 32)"

definition P16L8_macrocell_config :: "olmc list" where
  "P16L8_macrocell_config =
     [\<lparr>pin = 19, oe_fuses = (0, 32), terms_fuses = term_rows 32 256\<rparr>,
      \<lparr>pin = 18, oe_fuses = (256, 288), terms_fuses = term_rows 288 512\<rparr>,
      \<lparr>pin = 17, oe_fuses = (512, 544), terms_fuses = term_rows 544 768\<rparr>,
      \<lparr>pin = 16, oe_fuses = (768, 800), terms_fuses = term_rows 800 1024\<rparr>,
      \<lparr>pin = 15, oe_fuses = (1024, 1056), terms_fuses = term_rows 1056 1280\<rparr>,
      \<lparr>pin = 14, oe_fuses = (1280, 1312), terms_fuses = term_rows 1312 1536\<rparr>,
      \<lparr>pin = 13, oe_fuses = (1536, 1568), terms_fuses = term_rows 1568 1792\<rparr>,
      \<lparr>pin = 12, oe_fuses = (1792, 1824), terms_fuses = term_rows 1824 2048\<rparr>]"

definition G16V8_macrocell_config :: "g_olmc list" where
  "G16V8_macrocell_config =
     [\<lparr>pin = 19, oe_fuses = (0, 32), terms_fuses = term_rows 32 256,
        ac1_fuse = 2120, xor_fuse = 2048\<rparr>,
      \<lparr>pin = 18, oe_fuses = (256, 288), terms_fuses = term_rows 288 512,
        ac1_fuse = 2121, xor_fuse = 2049\<rparr>,
      \<lparr>pin = 17, oe_fuses = (512, 544), terms_fuses = term_rows 544 768,
        ac1_fuse = 2122, xor_fuse = 2050\<rparr>,
      \<lparr>pin = 16, oe_fuses = (768, 800), terms_fuses = term_rows 800 1024,
        ac1_fuse = 2123, xor_fuse = 2051\<rparr>,
      \<lparr>pin = 15, oe_fuses = (1024, 1056), terms_fuses = term_rows 1056 1280,
        ac1_fuse = 2124, xor_fuse = 2052\<rparr>,
      \<lparr>pin = 14, oe_fuses = (1280, 1312), terms_fuses = term_rows 1312 1536,
        ac1_fuse = 2125, xor_fuse = 2053\<rparr>,
      \<lparr>pin = 13, oe_fuses = (1536, 1568), terms_fuses = term_rows 1568 1792,
        ac1_fuse = 2126, xor_fuse = 2054\<rparr>,
      \<lparr>pin = 12, oe_fuses = (1792, 1824), terms_fuses = term_rows 1824 2048,
        ac1_fuse = 2127, xor_fuse = 2055\<rparr>]"

subsection \<open>The product-term loop shared by all variants\<close>

text \<open>
  \<^verbatim>\<open>
  d_terms = ORList()
  for term_fuses in config.terms_fuses:
      if is_term_nonzero(self.fusemap, term_fuses):
          terms = collect_and_terms(self.fusemap, term_fuses)
          if terms:
              d_terms.append(terms)
  \<close>
\<close>

fun d_terms_loop :: "int list \<Rightarrow> (nat \<times> nat) list \<Rightarrow> py_error + nat list list" where
  "d_terms_loop fm [] = Inr []"
| "d_terms_loop fm (term_fuses # rest) =
     bind_err (is_term_nonzero fm term_fuses) (\<lambda>live.
       if live then
         bind_err (collect_and_terms fm term_fuses) (\<lambda>terms.
         bind_err (d_terms_loop fm rest) (\<lambda>d_terms.
           Inr (if terms \<noteq> [] then terms # d_terms else d_terms)))
       else d_terms_loop fm rest)"

text \<open>
  The output-enable row as PAL16L8 and the Complex variant read it: the literals of the
  row when it is live and has any, else nothing.
  \<^verbatim>\<open>
  if is_term_nonzero(self.fusemap, config.oe_fuses):
      oe_terms = collect_and_terms(self.fusemap, config.oe_fuses)
      if oe_terms:
          eqns.append((name+".oe", oe_terms))
  \<close>
\<close>

definition oe_eqns :: "int list \<Rightarrow> string \<Rightarrow> nat \<times> nat \<Rightarrow> py_error + eqn list" where
  "oe_eqns fm name oe =
     bind_err (is_term_nonzero fm oe) (\<lambda>live.
       if live then
         bind_err (collect_and_terms fm oe) (\<lambda>oe_terms.
           Inr (if oe_terms \<noteq> [] then [(name @ ''.oe'', ANDList oe_terms)] else []))
       else Inr [])"

subsection \<open>PAL16L8\<close>

definition P16L8_is_out_inverted :: "pal_base \<Rightarrow> nat \<Rightarrow> py_error + bool" where
  "P16L8_is_out_inverted d p =
     (case find (\<lambda>config. pin config = p) P16L8_macrocell_config of
        None \<Rightarrow> Inr False
      | Some config \<Rightarrow> is_term_nonzero (fusemap d) (oe_fuses config))"

definition P16L8_get_input_map :: "pal_base \<Rightarrow> py_error + (nat \<times> bool) list" where
  "P16L8_get_input_map d =
     bind_err (P16L8_is_out_inverted d 18) (\<lambda>i18.
     bind_err (P16L8_is_out_inverted d 17) (\<lambda>i17.
     bind_err (P16L8_is_out_inverted d 16) (\<lambda>i16.
     bind_err (P16L8_is_out_inverted d 15) (\<lambda>i15.
     bind_err (P16L8_is_out_inverted d 14) (\<lambda>i14.
     bind_err (P16L8_is_out_inverted d 13) (\<lambda>i13.
       Inr [(2, False), (1, False), (3, False), (18, i18), (4, False), (17, i17),
            (5, False), (16, i16), (6, False), (15, i15), (7, False), (14, i14),
            (8, False), (13, i13), (9, False), (11, False)]))))))"

definition P16L8_get_macrocell_eqns :: "pal_base \<Rightarrow> olmc \<Rightarrow> py_error + eqn list" where
  "P16L8_get_macrocell_eqns d config =
     bind_err (get_pin_name d (pin config)) (\<lambda>name.
     bind_err (oe_eqns (fusemap d) name (oe_fuses config)) (\<lambda>eqns.
     bind_err (d_terms_loop (fusemap d) (terms_fuses config)) (\<lambda>d_terms.
       Inr (if d_terms \<noteq> [] then eqns @ [(name, ORList d_terms)] else eqns))))"

subsection \<open>GAL16V8, Complex configuration\<close>

definition G16V8MA_is_out_inverted :: "pal_base \<Rightarrow> nat \<Rightarrow> py_error + bool" where
  "G16V8MA_is_out_inverted d p =
     (case find (\<lambda>config. pin config = p) G16V8_macrocell_config of
        None \<Rightarrow> Inr False
      | Some config \<Rightarrow>
          bind_err (is_term_nonzero (fusemap d) (oe_fuses config)) (\<lambda>live.
            if live then bind_err (getitem (fusemap d) (xor_fuse config)) (\<lambda>x. Inr (x = 0))
            else Inr False))"

definition G16V8MA_get_input_map :: "pal_base \<Rightarrow> py_error + (nat \<times> bool) list" where
  "G16V8MA_get_input_map d =
     bind_err (G16V8MA_is_out_inverted d 18) (\<lambda>i18.
     bind_err (G16V8MA_is_out_inverted d 17) (\<lambda>i17.
     bind_err (G16V8MA_is_out_inverted d 16) (\<lambda>i16.
     bind_err (G16V8MA_is_out_inverted d 15) (\<lambda>i15.
     bind_err (G16V8MA_is_out_inverted d 14) (\<lambda>i14.
     bind_err (G16V8MA_is_out_inverted d 13) (\<lambda>i13.
       Inr [(2, False), (1, False), (3, False), (18, i18), (4, False), (17, i17),
            (5, False), (16, i16), (6, False), (15, i15), (7, False), (14, i14),
            (8, False), (13, i13), (9, False), (11, False)]))))))"

definition G16V8MA_get_macrocell_eqns :: "pal_base \<Rightarrow> g_olmc \<Rightarrow> py_error + eqn list" where
  "G16V8MA_get_macrocell_eqns d config =
     bind_err (get_pin_name d (pin config)) (\<lambda>name.
     bind_err (oe_eqns (fusemap d) name (oe_fuses config)) (\<lambda>eqns.
     bind_err (d_terms_loop (fusemap d) (terms_fuses config)) (\<lambda>d_terms.
       Inr (if d_terms \<noteq> [] then eqns @ [(name, ORList d_terms)] else eqns))))"

subsection \<open>GAL16V8, Registered and Simple configurations\<close>

text \<open>
  Both variants share
  \<^verbatim>\<open>
  return not self.fusemap[config.ac1_fuse] and not self.fusemap[config.xor_fuse]
  \<close>
  after the search for the macrocell of the pin.
\<close>

definition ac1_xor_inverted :: "pal_base \<Rightarrow> nat \<Rightarrow> py_error + bool" where
  "ac1_xor_inverted d p =
     (case find (\<lambda>config. pin config = p) G16V8_macrocell_config of
        None \<Rightarrow> Inr False
      | Some config \<Rightarrow>
          bind_err (getitem (fusemap d) (ac1_fuse config)) (\<lambda>a.
            if a = 0 then bind_err (getitem (fusemap d) (xor_fuse config)) (\<lambda>x. Inr (x = 0))
            else Inr False))"

definition G16V8MS_is_out_inverted :: "pal_base \<Rightarrow> nat \<Rightarrow> py_error + bool" where
  "G16V8MS_is_out_inverted = ac1_xor_inverted"

definition G16V8AS_is_out_inverted :: "pal_base \<Rightarrow> nat \<Rightarrow> py_error + bool" where
  "G16V8AS_is_out_inverted = ac1_xor_inverted"

definition G16V8MS_get_input_map :: "pal_base \<Rightarrow> py_error + (nat \<times> bool) list" where
  "G16V8MS_get_input_map d =
     bind_err (G16V8MS_is_out_inverted d 19) (\<lambda>i19.
     bind_err (G16V8MS_is_out_inverted d 18) (\<lambda>i18.
     bind_err (G16V8MS_is_out_inverted d 17) (\<lambda>i17.
     bind_err (G16V8MS_is_out_inverted d 16) (\<lambda>i16.
     bind_err (G16V8MS_is_out_inverted d 15) (\<lambda>i15.
     bind_err (G16V8MS_is_out_inverted d 14) (\<lambda>i14.
     bind_err (G16V8MS_is_out_inverted d 13) (\<lambda>i13.
     bind_err (G16V8MS_is_out_inverted d 12) (\<lambda>i12.
       Inr [(2, False), (19, i19), (3, False), (18, i18), (4, False), (17, i17),
            (5, False), (16, i16), (6, False), (15, i15), (7, False), (14, i14),
            (8, False), (13, i13), (9, False), (12, i12)]))))))))"

text \<open>
  \<^verbatim>\<open>
  def get_macrocell_eqns(self, config):          # G16V8MS
      eqns = []
      name = self.get_pin_name(config.pin)
      if is_term_nonzero(self.fusemap, config.oe_fuses):
          oe_terms = collect_and_terms(self.fusemap, config.oe_fuses)
      else:
          oe_terms = ANDList()
      d_terms = ORList()
      for term_fuses in config.terms_fuses: ...
      if self.fusemap[config.ac1_fuse]:
          if oe_terms:
              eqns.append((name+".oe", oe_terms))
          if d_terms:
              eqns.append((name, d_terms))
      else:
          if oe_terms:
              d_terms.insert(0, oe_terms)
          if d_terms:
              eqns.append((name+".d", d_terms))
      return eqns
  \<close>
\<close>

definition G16V8MS_get_macrocell_eqns :: "pal_base \<Rightarrow> g_olmc \<Rightarrow> py_error + eqn list" where
  "G16V8MS_get_macrocell_eqns d config =
     bind_err (get_pin_name d (pin config)) (\<lambda>name.
     bind_err (is_term_nonzero (fusemap d) (oe_fuses config)) (\<lambda>live.
     bind_err (if live then collect_and_terms (fusemap d) (oe_fuses config) else Inr [])
       (\<lambda>oe_terms.
     bind_err (d_terms_loop (fusemap d) (terms_fuses config)) (\<lambda>d_terms.
     bind_err (getitem (fusemap d) (ac1_fuse config)) (\<lambda>ac1.
       if ac1 \<noteq> 0 then
         Inr ((if oe_terms \<noteq> [] then [(name @ ''.oe'', ANDList oe_terms)] else []) @
              (if d_terms \<noteq> [] then [(name, ORList d_terms)] else []))
       else
         (let d_terms' = (if oe_terms \<noteq> [] then oe_terms # d_terms else d_terms)
          in Inr (if d_terms' \<noteq> [] then [(name @ ''.d'', ORList d_terms')] else [])))))))"

definition G16V8AS_get_input_map :: "pal_base \<Rightarrow> py_error + (nat \<times> bool) list" where
  "G16V8AS_get_input_map d =
     bind_err (G16V8AS_is_out_inverted d 19) (\<lambda>i19.
     bind_err (G16V8AS_is_out_inverted d 18) (\<lambda>i18.
     bind_err (G16V8AS_is_out_inverted d 17) (\<lambda>i17.
     bind_err (G16V8AS_is_out_inverted d 14) (\<lambda>i14.
     bind_err (G16V8AS_is_out_inverted d 13) (\<lambda>i13.
     bind_err (G16V8AS_is_out_inverted d 12) (\<lambda>i12.
       Inr [(2, False), (1, False), (3, False), (19, i19), (4, False), (18, i18),
            (5, False), (17, i17), (6, False), (14, i14), (7, False), (13, i13),
            (8, False), (12, i12), (9, False), (11, False)]))))))"

text \<open>
  \<^verbatim>\<open>
  def get_macrocell_eqns(self, config):          # G16V8AS
      eqns = []
      if not self.fusemap[config.ac1_fuse]:
          name = self.get_pin_name(config.pin)
          d_terms = ORList()
          if is_term_nonzero(self.fusemap, config.oe_fuses):
              terms = collect_and_terms(self.fusemap, config.oe_fuses)
              if terms:
                  d_terms.append(terms)
          for term_fuses in config.terms_fuses: ...
          if d_terms:
              eqns.append((name, d_terms))
      return eqns
  \<close>
  The output-enable row goes through the same steps as each product-term row, ahead of
  them.
\<close>

definition G16V8AS_get_macrocell_eqns :: "pal_base \<Rightarrow> g_olmc \<Rightarrow> py_error + eqn list" where
  "G16V8AS_get_macrocell_eqns d config =
     bind_err (getitem (fusemap d) (ac1_fuse config)) (\<lambda>ac1.
       if ac1 = 0 then
         bind_err (get_pin_name d (pin config)) (\<lambda>name.
         bind_err (d_terms_loop (fusemap d) (oe_fuses config # terms_fuses config))
           (\<lambda>d_terms.
           Inr (if d_terms \<noteq> [] then [(name, ORList d_terms)] else [])))
       else Inr [])"

subsection \<open>Construction and mode detection\<close>

datatype device = P16L8 pal_base | G16V8MA pal_base | G16V8MS pal_base | G16V8AS pal_base

definition mismatch :: py_error where
  "mismatch = TypeError ''incorrect device chosen''"

text \<open>
  The tests on the two configuration fuses. Python's \<open>or\<close> evaluates its right operand
  only when the left one is false, so fuse 2193 is read only then.
\<close>

definition fuse_eq :: "int list \<Rightarrow> nat \<Rightarrow> int \<Rightarrow> py_error + bool" where
  "fuse_eq fm i v = bind_err (getitem fm i) (\<lambda>x. Inr (x = v))"

definition fuse_ne :: "int list \<Rightarrow> nat \<Rightarrow> int \<Rightarrow> py_error + bool" where
  "fuse_ne fm i v = bind_err (getitem fm i) (\<lambda>x. Inr (x \<noteq> v))"

definition py_or :: "py_error + bool \<Rightarrow> py_error + bool \<Rightarrow> py_error + bool" where
  "py_or a b = bind_err a (\<lambda>x. if x then Inr True else b)"

definition P16L8_new :: "int list \<Rightarrow> string list option \<Rightarrow> py_error + device" where
  "P16L8_new fm pm = Inr (P16L8 (PALBase_init fm pm))"

text \<open>
  \<^verbatim>\<open>
  if fusemap[2192] != 1 or fusemap[2193] != 1:       # G16V8MA.__init__
      raise TypeError("incorrect device chosen")
  if fusemap[2192] != 0 or fusemap[2193] != 1:       # G16V8MS.__init__
      raise TypeError("incorrect device chosen")
  if fusemap[2192] != 1 or fusemap[2193] != 0:       # G16V8AS.__init__
      raise TypeError("incorrect device chosen")
  \<close>
\<close>

definition G16V8MA_new :: "int list \<Rightarrow> string list option \<Rightarrow> py_error + device" where
  "G16V8MA_new fm pm =
     bind_err (py_or (fuse_ne fm 2192 1) (fuse_ne fm 2193 1)) (\<lambda>bad.
       if bad then Inl mismatch else Inr (G16V8MA (PALBase_init fm pm)))"

definition G16V8MS_new :: "int list \<Rightarrow> string list option \<Rightarrow> py_error + device" where
  "G16V8MS_new fm pm =
     bind_err (py_or (fuse_ne fm 2192 0) (fuse_ne fm 2193 1)) (\<lambda>bad.
       if bad then Inl mismatch else Inr (G16V8MS (PALBase_init fm pm)))"

definition G16V8AS_new :: "int list \<Rightarrow> string list option \<Rightarrow> py_error + device" where
  "G16V8AS_new fm pm =
     bind_err (py_or (fuse_ne fm 2192 1) (fuse_ne fm 2193 0)) (\<lambda>bad.
       if bad then Inl mismatch else Inr (G16V8AS (PALBase_init fm pm)))"

text \<open>
  \<^verbatim>\<open>
  def G16V8(fusemap, pinmap):
      if fusemap[2192] == 1 or fusemap[2193] == 0:
          return G16V8AS(fusemap, pinmap)
      elif fusemap[2192] == 0 or fusemap[2193] != 1:
          return G16V8MS(fusemap, pinmap)
      elif fusemap[2192] == 1 or fusemap[2193] != 1:
          return G16V8MA(fusemap, pinmap)
      else:
          raise TypeError("incorrect device chosen")
  \<close>
\<close>

definition G16V8 :: "int list \<Rightarrow> string list option \<Rightarrow> py_error + device" where
  "G16V8 fm pm =
     bind_err (py_or (fuse_eq fm 2192 1) (fuse_eq fm 2193 0)) (\<lambda>c1.
       if c1 then G16V8AS_new fm pm
       else bind_err (py_or (fuse_eq fm 2192 0) (fuse_ne fm 2193 1)) (\<lambda>c2.
         if c2 then G16V8MS_new fm pm
         else bind_err (py_or (fuse_eq fm 2192 1) (fuse_ne fm 2193 1)) (\<lambda>c3.
           if c3 then G16V8MA_new fm pm
           else Inl mismatch)))"

section \<open>Printing\<close>

text \<open>
  What the program prints is a list of strings, one for each call of \<open>print\<close>. A run
  is the list printed so far together with the exception that ended it, if any.
\<close>

type_synonym outcome = "string list \<times> py_error option"

definition then_out :: "outcome \<Rightarrow> outcome \<Rightarrow> outcome" where
  \<comment> \<open>the second run happens only when the first ended without an exception\<close>
  "then_out a b = (case snd a of Some e \<Rightarrow> a | None \<Rightarrow> (fst a @ fst b, snd b))"

definition raise_or :: "py_error + 'a \<Rightarrow> ('a \<Rightarrow> outcome) \<Rightarrow> outcome" where
  "raise_or m f = (case m of Inl e \<Rightarrow> ([], Some e) | Inr x \<Rightarrow> f x)"

definition join :: "string \<Rightarrow> string list \<Rightarrow> string" where
  \<comment> \<open>\<open>sep.join(items)\<close>\<close>
  "join sep items = (case items of [] \<Rightarrow> [] | x # r \<Rightarrow> x @ concat (map (\<lambda>y. sep @ y) r))"

fun lookup_names :: "string list \<Rightarrow> nat list \<Rightarrow> py_error + string list" where
  \<comment> \<open>\<open>[names[x] for x in value]\<close>\<close>
  "lookup_names names [] = Inr []"
| "lookup_names names (x # r) =
     bind_err (getitem names x) (\<lambda>n.
     bind_err (lookup_names names r) (\<lambda>ns. Inr (n # ns)))"

fun stringize_ands :: "string list \<Rightarrow> nat list list \<Rightarrow> py_error + string list" where
  "stringize_ands names [] = Inr []"
| "stringize_ands names (t # r) =
     bind_err (lookup_names names t) (\<lambda>items.
     bind_err (stringize_ands names r) (\<lambda>ss. Inr (join '' & '' items # ss)))"

text \<open>
  \<^verbatim>\<open>
  def stringize_list(self, value, names):
      if isinstance(value, ANDList):
          return self.stringize_and([self.stringize_list(x, names) for x in value])
      elif isinstance(value, ORList):
          return self.stringize_or([self.stringize_list(x, names) for x in value])
      else:
          return names[value]
  \<close>
\<close>

definition stringize_list :: "expr \<Rightarrow> string list \<Rightarrow> py_error + string" where
  "stringize_list value names =
     (case value of
        ANDList t \<Rightarrow> bind_err (lookup_names names t) (\<lambda>items. Inr (join '' & '' items))
      | ORList ts \<Rightarrow>
          bind_err (stringize_ands names ts) (\<lambda>items.
            Inr (join (CHR 0x0A # ''  # '') items)))"

definition print_eqn :: "string \<Rightarrow> expr \<Rightarrow> string list \<Rightarrow> outcome" where
  "print_eqn name items names =
     raise_or (stringize_list items names) (\<lambda>text.
       ([name @ '' ='' @ [CHR 0x0A] @ ''    '' @ text @ '';''], None))"

definition print_pin :: "nat \<Rightarrow> string \<Rightarrow> outcome" where
  "print_pin number signal = ([''Pin '' @ fmt_2d number @ '' = '' @ signal @ '';''], None)"

definition print_comment :: "string \<Rightarrow> outcome" where
  "print_comment text = ([''/* '' @ text @ '' */''], None)"

text \<open>
  \<^verbatim>\<open>
  def get_macrocell_cmt(self, config):          # G16V8xx
      comments = []
      comments.append("Pin %d; AC1:%d; XOR:%d" % (config.pin,
          self.fusemap[config.ac1_fuse], self.fusemap[config.xor_fuse]))
      return comments
  \<close>
  PAL16L8 inherits the method of \<open>PALBase\<close>, which returns the empty list.
\<close>

definition G16V8xx_get_macrocell_cmt :: "pal_base \<Rightarrow> g_olmc \<Rightarrow> py_error + string list" where
  "G16V8xx_get_macrocell_cmt d config =
     bind_err (getitem (fusemap d) (ac1_fuse config)) (\<lambda>a.
     bind_err (getitem (fusemap d) (xor_fuse config)) (\<lambda>x.
       Inr [''Pin '' @ dec_nat (pin config) @ ''; AC1:'' @ dec_int a @ ''; XOR:'' @ dec_int x]))"

subsection \<open>The methods of a device, by variant\<close>

definition base :: "device \<Rightarrow> pal_base" where
  "base dev = (case dev of P16L8 d \<Rightarrow> d | G16V8MA d \<Rightarrow> d | G16V8MS d \<Rightarrow> d | G16V8AS d \<Rightarrow> d)"

definition is_out_inverted :: "device \<Rightarrow> nat \<Rightarrow> py_error + bool" where
  "is_out_inverted dev p =
     (case dev of
        P16L8 d \<Rightarrow> P16L8_is_out_inverted d p
      | G16V8MA d \<Rightarrow> G16V8MA_is_out_inverted d p
      | G16V8MS d \<Rightarrow> G16V8MS_is_out_inverted d p
      | G16V8AS d \<Rightarrow> G16V8AS_is_out_inverted d p)"

definition get_input_map :: "device \<Rightarrow> py_error + (nat \<times> bool) list" where
  "get_input_map dev =
     (case dev of
        P16L8 d \<Rightarrow> P16L8_get_input_map d
      | G16V8MA d \<Rightarrow> G16V8MA_get_input_map d
      | G16V8MS d \<Rightarrow> G16V8MS_get_input_map d
      | G16V8AS d \<Rightarrow> G16V8AS_get_input_map d)"

definition get_input_names :: "device \<Rightarrow> py_error + string list" where
  "get_input_names dev = bind_err (get_input_map dev) (input_names_loop (base dev))"

text \<open>
  \<open>device.get_macrocell_eqns(config)\<close> for each \<open>config\<close> of \<open>device.macrocell_config\<close>,
  in table order; likewise the comments.
\<close>

definition macrocell_eqns :: "device \<Rightarrow> (py_error + eqn list) list" where
  "macrocell_eqns dev =
     (case dev of
        P16L8 d \<Rightarrow> map (P16L8_get_macrocell_eqns d) P16L8_macrocell_config
      | G16V8MA d \<Rightarrow> map (G16V8MA_get_macrocell_eqns d) G16V8_macrocell_config
      | G16V8MS d \<Rightarrow> map (G16V8MS_get_macrocell_eqns d) G16V8_macrocell_config
      | G16V8AS d \<Rightarrow> map (G16V8AS_get_macrocell_eqns d) G16V8_macrocell_config)"

definition macrocell_cmts :: "device \<Rightarrow> (py_error + string list) list" where
  "macrocell_cmts dev =
     (case dev of
        P16L8 d \<Rightarrow> map (\<lambda>config. Inr []) P16L8_macrocell_config
      | _ \<Rightarrow> map (G16V8xx_get_macrocell_cmt (base dev)) G16V8_macrocell_config)"

subsection \<open>The printout\<close>

text \<open>
  \<^verbatim>\<open>
  def generate_printout(device, printer):
      for pin in range(1, device.pin_count+1):
          name = device.get_pin_name(pin)
          if name:
              if device.is_out_inverted(pin):
                  name = inverted(name)
              printer.print_pin(pin, name)
      print()
      names = device.get_input_names()
      for config in device.macrocell_config:
          eqns = device.get_macrocell_eqns(config)
          if eqns:
              for cmt in device.get_macrocell_cmt(config):
                  printer.print_comment(cmt)
              for eqn in eqns:
                  printer.print_eqn(eqn[0], eqn[1], names)
              print()
  \<close>
\<close>

fun print_pins :: "device \<Rightarrow> nat list \<Rightarrow> outcome" where
  "print_pins dev [] = ([], None)"
| "print_pins dev (p # rest) =
     then_out
       (raise_or (get_pin_name (base dev) p) (\<lambda>name.
          if name \<noteq> [] then
            raise_or (is_out_inverted dev p) (\<lambda>invert.
            raise_or (if invert then inverted name else Inr name) (\<lambda>name'.
              print_pin p name'))
          else ([], None)))
       (print_pins dev rest)"

fun print_comments :: "string list \<Rightarrow> outcome" where
  "print_comments [] = ([], None)"
| "print_comments (cmt # rest) = then_out (print_comment cmt) (print_comments rest)"

fun print_eqns :: "eqn list \<Rightarrow> string list \<Rightarrow> outcome" where
  "print_eqns [] names = ([], None)"
| "print_eqns (eqn # rest) names =
     then_out (print_eqn (fst eqn) (snd eqn) names) (print_eqns rest names)"

text \<open>
  The loop over the macrocells takes, for each of them, the result of
  \<open>get_macrocell_eqns\<close> and that of \<open>get_macrocell_cmt\<close>; the comments are looked at only
  when there are equations.
\<close>

fun print_macrocells ::
    "string list \<Rightarrow> ((py_error + eqn list) \<times> (py_error + string list)) list \<Rightarrow> outcome" where
  "print_macrocells names [] = ([], None)"
| "print_macrocells names ((eqns_result, cmts_result) # rest) =
     then_out
       (raise_or eqns_result (\<lambda>eqns.
          if eqns \<noteq> [] then
            raise_or cmts_result (\<lambda>cmts.
              then_out (print_comments cmts)
                (then_out (print_eqns eqns names) ([[]], None)))
          else ([], None)))
       (print_macrocells names rest)"

definition generate_printout :: "device \<Rightarrow> outcome" where
  "generate_printout dev =
     then_out (print_pins dev [1..<21])
       (then_out ([[]], None)
          (raise_or (get_input_names dev) (\<lambda>names.
             print_macrocells names (zip (macrocell_eqns dev) (macrocell_cmts dev)))))"

subsection \<open>Device selection\<close>

text \<open>
  \<^verbatim>\<open>
  device_name = sys.argv[1].upper()
  try:
      device_type = device_type_map[device_name]
  except KeyError:
      raise ValueError("unknown device "+device_name)
  device = device_type(fusemap, pinmap)
  printer = CUPLPrinter()
  generate_printout(device, printer)
  \<close>
  The model starts from the upper-cased name, the fuse map and the pin map already read.
\<close>

definition device_type_map ::
    "string \<rightharpoonup> (int list \<Rightarrow> string list option \<Rightarrow> py_error + device)" where
  "device_type_map =
     [''G16V8'' \<mapsto> G16V8, ''GAL16V8'' \<mapsto> G16V8, ''G16V8AS'' \<mapsto> G16V8AS_new,
      ''G16V8MA'' \<mapsto> G16V8MA_new, ''G16V8MS'' \<mapsto> G16V8MS_new, ''PALCE16V8'' \<mapsto> G16V8,
      ''P16L8'' \<mapsto> P16L8_new, ''PAL16L8'' \<mapsto> P16L8_new]"

definition disassemble :: "string \<Rightarrow> int list \<Rightarrow> string list option \<Rightarrow> outcome" where
  "disassemble device_name fm pm =
     (case device_type_map device_name of
        None \<Rightarrow> ([], Some ValueError)
      | Some device_type \<Rightarrow> raise_or (device_type fm pm) generate_printout)"

section \<open>JEDEC parsing\<close>

text \<open>
  The file is read as text, one character at a time. The stream is the list of
  characters still to be read; \<open>fp.read(1)\<close> yields the first of them, or the empty
  string forever once the list is exhausted. Characters are code points below 256.
\<close>

subsection \<open>String operations of the Python library\<close>

definition is_space :: "char \<Rightarrow> bool" where
  \<comment> \<open>\<open>str.isspace\<close>, which \<open>lstrip()\<close> and \<open>split()\<close> use\<close>
  "is_space c = (of_char c \<in> {9, 10, 11, 12, 13, 28, 29, 30, 31, 32, 133, 160 :: nat})"

definition lstrip :: "string \<Rightarrow> string" where
  "lstrip s = dropWhile is_space s"

definition split_maxsplit1 :: "string \<Rightarrow> string list" where
  \<comment> \<open>\<open>s.split(maxsplit=1)\<close>: at most two fields, the second with its trailing blanks\<close>
  "split_maxsplit1 s =
     (let t = dropWhile is_space s in
      if t = [] then []
      else
        (let w = takeWhile (\<lambda>c. \<not> is_space c) t;
             r = dropWhile is_space (dropWhile (\<lambda>c. \<not> is_space c) t)
         in if r = [] then [w] else [w, r]))"

definition is_digit :: "char \<Rightarrow> bool" where
  "is_digit c = (48 \<le> (of_char c :: nat) \<and> (of_char c :: nat) \<le> 57)"

definition digit_val :: "char \<Rightarrow> int" where
  "digit_val c = int (of_char c) - 48"

definition int_space :: "char \<Rightarrow> bool" where
  \<comment> \<open>the blanks \<open>int()\<close> skips around a number\<close>
  "int_space c = (of_char c \<in> {9, 10, 11, 12, 13, 32, 133, 160 :: nat})"

fun underscores_ok :: "string \<Rightarrow> bool" where
  \<comment> \<open>every underscore stands between two digits\<close>
  "underscores_ok [] = True"
| "underscores_ok [c] = is_digit c"
| "underscores_ok (c # c' # r) =
     (if is_digit c then underscores_ok (c' # r)
      else is_digit c' \<and> underscores_ok (c' # r))"

definition py_int :: "string \<Rightarrow> py_error + int" where
  \<comment> \<open>\<open>int(s, 10)\<close> and, on one character, \<open>int(s)\<close>: blanks, an optional sign, decimal
      digits with single underscores between them, blanks. The interpreter's optional
      limit on the number of digits is not modelled.\<close>
  "py_int s =
     (let t = dropWhile int_space s;
          neg = (t \<noteq> [] \<and> hd t = CHR ''-'');
          u = (if t \<noteq> [] \<and> (hd t = CHR ''-'' \<or> hd t = CHR ''+'') then tl t else t);
          ds = takeWhile (\<lambda>c. is_digit c \<or> c = CHR ''_'') u;
          rest = dropWhile int_space (dropWhile (\<lambda>c. is_digit c \<or> c = CHR ''_'') u)
      in if ds = [] \<or> \<not> is_digit (hd ds) \<or> \<not> underscores_ok ds \<or> rest \<noteq> [] then Inl ValueError
         else
           (let v = foldl (\<lambda>a c. 10 * a + digit_val c) 0 (filter is_digit ds)
            in Inr (if neg then - v else v)))"

text \<open>
  List assignment \<open>xs[i] = v\<close> with a Python int index: a negative index counts from
  the end.
\<close>

definition setitem :: "'a list \<Rightarrow> int \<Rightarrow> 'a \<Rightarrow> py_error + 'a list" where
  "setitem xs i v =
     (if 0 \<le> i \<and> i < int (length xs) then Inr (xs[nat i := v])
      else if i < 0 \<and> - int (length xs) \<le> i then Inr (xs[nat (int (length xs) + i) := v])
      else Inl IndexError)"

subsection \<open>The command tokenizer\<close>

text \<open>
  \<^verbatim>\<open>
  def jedec_commands(fp):
      delim = fp.read(1)
      while delim != "*":
          if not delim:
              return
          delim = fp.read(1)
      while True:
          buffer = ""
          ch = fp.read(1)
          while ch != "*":
              if ch == "\x03":
                  return
              if ch in ("\r", "\n"):
                  ch = " "
              buffer += ch
              ch = fp.read(1)
          yield buffer.lstrip()
  \<close>
  The first loop ends at the end of the stream. The inner loop of the second does not
  test for it: there \<open>ch\<close> is the empty string, which is neither \<open>*\<close> nor ETX, the
  buffer is unchanged and the loop goes on. The inner loop is therefore a partial
  function, \<open>None\<close> standing for a loop that never ends.
\<close>

datatype gen_step = Yield string string | Stop

fun skip_preamble :: "string \<Rightarrow> string option" where
  \<comment> \<open>the stream after the first \<open>*\<close>, or \<open>None\<close> when the generator returns at once\<close>
  "skip_preamble [] = None"
| "skip_preamble (delim # fp) = (if delim = CHR ''*'' then Some fp else skip_preamble fp)"

definition fold_newline :: "char \<Rightarrow> char" where
  "fold_newline ch = (if ch = CHR 0x0D \<or> ch = CHR 0x0A then CHR '' '' else ch)"

partial_function (option) read_command :: "string \<Rightarrow> string \<Rightarrow> gen_step option" where
  "read_command buffer fp =
     (case fp of
        [] \<Rightarrow> read_command buffer []
      | ch # fp' \<Rightarrow>
          if ch = CHR ''*'' then Some (Yield (lstrip buffer) fp')
          else if ch = CHR 0x03 then Some Stop
          else read_command (buffer @ [fold_newline ch]) fp')"

declare read_command.simps [code]

subsection \<open>Loading the fuse map\<close>

text \<open>
  \<^verbatim>\<open>
  def load_jedec(fp):
      fuse_list = []
      num_fuses = None
      default = 0
      for cmd in jedec_commands(fp):
          if cmd.startswith("QF"):
              num_fuses = int(cmd[2:], 10)
          elif cmd.startswith("F"):
              default = int(cmd[1:], 10)
          elif cmd.startswith("L"):
              fuse_list.append(cmd[1:])
      fusemap = [default for _ in range(num_fuses)]
      for c in fuse_list:
          pos, data = c.split(maxsplit=1)
          data = data.replace(" ", "")
          pos = int(pos, 10)
          for fuse, state in zip(range(pos, pos+len(data)), data):
              fusemap[fuse] = int(state)
      return fusemap
  \<close>
\<close>

record parse_state =
  fuse_list :: "string list"
  num_fuses :: "int option"
  default_fuse :: int

definition initial_state :: parse_state where
  "initial_state = \<lparr>fuse_list = [], num_fuses = None, default_fuse = 0\<rparr>"

definition process_cmd :: "parse_state \<Rightarrow> string \<Rightarrow> py_error + parse_state" where
  "process_cmd st cmd =
     (if take 2 cmd = ''QF'' then
        bind_err (py_int (drop 2 cmd)) (\<lambda>n. Inr (st\<lparr>num_fuses := Some n\<rparr>))
      else if take 1 cmd = ''F'' then
        bind_err (py_int (drop 1 cmd)) (\<lambda>n. Inr (st\<lparr>default_fuse := n\<rparr>))
      else if take 1 cmd = ''L'' then
        Inr (st\<lparr>fuse_list := fuse_list st @ [drop 1 cmd]\<rparr>)
      else Inr st)"

text \<open>
  The \<open>for\<close> loop over the generator: each command is processed as soon as it is
  yielded, so an exception raised by a command comes before the reading of the next.
\<close>

partial_function (option) command_loop ::
    "parse_state \<Rightarrow> string \<Rightarrow> (py_error + parse_state) option" where
  "command_loop st fp =
     (case read_command [] fp of
        None \<Rightarrow> None
      | Some Stop \<Rightarrow> Some (Inr st)
      | Some (Yield cmd fp') \<Rightarrow>
          (case process_cmd st cmd of
             Inl e \<Rightarrow> Some (Inl e)
           | Inr st' \<Rightarrow> command_loop st' fp'))"

declare command_loop.simps [code]

fun write_fuses :: "int list \<Rightarrow> int \<Rightarrow> string \<Rightarrow> py_error + int list" where
  \<comment> \<open>\<open>for fuse, state in zip(range(pos, pos+len(data)), data): fusemap[fuse] = int(state)\<close>\<close>
  "write_fuses fm pos [] = Inr fm"
| "write_fuses fm pos (state # data) =
     bind_err (py_int [state]) (\<lambda>v.
     bind_err (setitem fm pos v) (\<lambda>fm'.
       write_fuses fm' (pos + 1) data))"

fun apply_fuse_list :: "int list \<Rightarrow> string list \<Rightarrow> py_error + int list" where
  "apply_fuse_list fm [] = Inr fm"
| "apply_fuse_list fm (c # rest) =
     (case split_maxsplit1 c of
        [pos, data] \<Rightarrow>
          bind_err (py_int pos) (\<lambda>p.
          bind_err (write_fuses fm p (filter (\<lambda>ch. ch \<noteq> CHR '' '') data)) (\<lambda>fm'.
            apply_fuse_list fm' rest))
      | _ \<Rightarrow> Inl ValueError)"

definition build_fusemap :: "parse_state \<Rightarrow> py_error + int list" where
  "build_fusemap st =
     (case num_fuses st of
        None \<Rightarrow> Inl (TypeError ''NoneType object cannot be interpreted as an integer'')
      | Some n \<Rightarrow> apply_fuse_list (replicate (nat n) (default_fuse st)) (fuse_list st))"

definition load_jedec :: "string \<Rightarrow> (py_error + int list) option" where
  "load_jedec fp =
     (case skip_preamble fp of
        None \<Rightarrow> Some (build_fusemap initial_state)
      | Some fp' \<Rightarrow>
          (case command_loop initial_state fp' of
             None \<Rightarrow> None
           | Some (Inl e) \<Rightarrow> Some (Inl e)
           | Some (Inr st) \<Rightarrow> Some (build_fusemap st)))"

section \<open>The behaviour of a row, stated without the loops\<close>

text \<open>
  A row is live when none of its input columns has both fuses 0; its literals are the
  relative positions of its fuses that are 0. The live, non-empty rows of a list of rows
  are the literal lists, in the order of the rows, of those rows that are live and have
  a literal.
\<close>

definition row_live :: "int list \<Rightarrow> nat \<times> nat \<Rightarrow> bool" where
  "row_live fm r = (\<not> list_ex (\<lambda>i. fm ! i = 0 \<and> fm ! Suc i = 0) (range3 (fst r) (snd r) 2))"

definition row_literals :: "int list \<Rightarrow> nat \<times> nat \<Rightarrow> nat list" where
  "row_literals fm r = filter (\<lambda>i. fm ! (fst r + i) = 0) [0..<snd r - fst r]"

definition live_terms :: "int list \<Rightarrow> (nat \<times> nat) list \<Rightarrow> nat list list" where
  "live_terms fm rows =
     filter (\<lambda>t. t \<noteq> []) (map (row_literals fm) (filter (row_live fm) rows))"

definition row32 :: "nat \<Rightarrow> nat \<times> nat \<Rightarrow> bool" where
  \<comment> \<open>a row of 32 fuses inside a fuse map of \<open>n\<close> fuses\<close>
  "row32 n r = (snd r = fst r + 32 \<and> snd r \<le> n)"

text \<open>
  The product terms of a merged equation: the literals of the output-enable row, when
  that row is live and has a literal, ahead of the live, non-empty product-term rows.
\<close>

definition merged_terms :: "int list \<Rightarrow> nat \<times> nat \<Rightarrow> (nat \<times> nat) list \<Rightarrow> nat list list" where
  "merged_terms fm oe rows =
     (if row_live fm oe \<and> row_literals fm oe \<noteq> [] then [row_literals fm oe] else []) @
     live_terms fm rows"

text \<open>The AND nodes of an expression: the \<open>ANDList\<close> itself, or the members of an \<open>ORList\<close>.\<close>

definition and_nodes :: "expr \<Rightarrow> nat list list" where
  "and_nodes e = (case e of ANDList t \<Rightarrow> [t] | ORList ts \<Rightarrow> ts)"

text \<open>Every AND node of the equations is what \<open>collect_and_terms\<close> returned for one of the rows.\<close>

definition from_rows :: "int list \<Rightarrow> (nat \<times> nat) list \<Rightarrow> eqn list \<Rightarrow> bool" where
  "from_rows fm rows eqns =
     (\<forall>e \<in> snd ` set eqns. \<forall>t \<in> set (and_nodes e). \<exists>r \<in> set rows. collect_and_terms fm r = Inr t)"

text \<open>The pins of an input map all have a non-empty name in the pin map.\<close>

definition pins_named :: "pal_base \<Rightarrow> (nat \<times> bool) list \<Rightarrow> bool" where
  "pins_named d m = (\<forall>p \<in> fst ` set m. 0 < p \<and> p \<le> length (pinmap d) \<and> pinmap d ! (p - 1) \<noteq> [])"

section \<open>Well-formed JEDEC input, in the words of the specification\<close>

text \<open>
  A command is the text between two \<open>*\<close>, with carriage returns and line feeds folded
  to spaces and leading blanks removed. The recognised commands are \<open>QF<digits>\<close>,
  \<open>F<0|1>\<close> and \<open>L<digits><space><digits, spaces permitted>\<close>; a command with another
  prefix is ignored.
\<close>

definition dec_value :: "string \<Rightarrow> nat" where
  "dec_value ds = foldl (\<lambda>a c. 10 * a + (of_char c - 48)) 0 ds"

definition is_bit :: "char \<Rightarrow> bool" where
  "is_bit c = (c = CHR ''0'' \<or> c = CHR ''1'')"

definition wf_QF :: "string \<Rightarrow> bool" where
  "wf_QF cmd = (take 2 cmd = ''QF'' \<and> drop 2 cmd \<noteq> [] \<and> list_all is_digit (drop 2 cmd))"

definition wf_F :: "string \<Rightarrow> bool" where
  "wf_F cmd = (cmd = ''F0'' \<or> cmd = ''F1'')"

definition wf_L :: "string \<Rightarrow> bool" where
  "wf_L cmd =
     (take 1 cmd = ''L'' \<and>
      (let p = takeWhile is_digit (drop 1 cmd);
           r = dropWhile is_digit (drop 1 cmd);
           d = dropWhile (\<lambda>c. c = CHR '' '') r
       in p \<noteq> [] \<and> r \<noteq> [] \<and> hd r = CHR '' '' \<and> d \<noteq> [] \<and>
          list_all (\<lambda>c. is_bit c \<or> c = CHR '' '') d))"

definition wf_ignored :: "string \<Rightarrow> bool" where
  "wf_ignored cmd = (take 2 cmd \<noteq> ''QF'' \<and> take 1 cmd \<noteq> ''F'' \<and> take 1 cmd \<noteq> ''L'')"

definition wf_cmd :: "string \<Rightarrow> bool" where
  "wf_cmd cmd = (wf_QF cmd \<or> wf_F cmd \<or> wf_L cmd \<or> wf_ignored cmd)"

text \<open>
  What the commands declare: the fuse count of the last \<open>QF\<close> command, the default of the
  last \<open>F\<close> command (0 when there is none), and for each \<open>L\<close> command, in file order, its
  position and its digits.
\<close>

definition declared_count :: "string list \<Rightarrow> nat option" where
  "declared_count cmds =
     (if filter (\<lambda>c. take 2 c = ''QF'') cmds = [] then None
      else Some (dec_value (drop 2 (last (filter (\<lambda>c. take 2 c = ''QF'') cmds)))))"

definition declared_default :: "string list \<Rightarrow> int" where
  "declared_default cmds =
     (if filter (\<lambda>c. take 1 c = ''F'') cmds = [] then 0
      else int (dec_value (drop 1 (last (filter (\<lambda>c. take 1 c = ''F'') cmds)))))"

definition L_pos :: "string \<Rightarrow> nat" where
  "L_pos cmd = dec_value (takeWhile is_digit (drop 1 cmd))"

definition L_bits :: "string \<Rightarrow> int list" where
  "L_bits cmd = map digit_val (filter is_bit (dropWhile is_digit (drop 1 cmd)))"

definition fuse_writes :: "string list \<Rightarrow> (nat \<times> int list) list" where
  "fuse_writes cmds = map (\<lambda>c. (L_pos c, L_bits c)) (filter (\<lambda>c. take 1 c = ''L'') cmds)"

definition covers :: "nat \<Rightarrow> nat \<times> int list \<Rightarrow> bool" where
  "covers i w = (fst w \<le> i \<and> i < fst w + length (snd w))"

text \<open>
  The fuse at position \<open>i\<close>: the default where no \<open>L\<close> command covers \<open>i\<close>, else the digit
  that the last \<open>L\<close> command covering \<open>i\<close> writes there.
\<close>

definition expected_fuse :: "int \<Rightarrow> (nat \<times> int list) list \<Rightarrow> nat \<Rightarrow> int" where
  "expected_fuse dflt ws i =
     (if filter (covers i) ws = [] then dflt
      else snd (last (filter (covers i) ws)) ! (i - fst (last (filter (covers i) ws))))"

text \<open>The loop of \<open>load_jedec\<close> over a list of commands, and a run of fuse writes.\<close>

fun run_cmds :: "parse_state \<Rightarrow> string list \<Rightarrow> py_error + parse_state" where
  "run_cmds st [] = Inr st"
| "run_cmds st (cmd # cmds) = bind_err (process_cmd st cmd) (\<lambda>st'. run_cmds st' cmds)"

fun overwrite :: "int list \<Rightarrow> nat \<Rightarrow> int list \<Rightarrow> int list" where
  "overwrite fm pos [] = fm"
| "overwrite fm pos (b # bs) = overwrite (fm[pos := b]) (Suc pos) bs"

text \<open>The state of \<open>load_jedec\<close> after a list of well-formed commands.\<close>

definition final_state :: "parse_state \<Rightarrow> string list \<Rightarrow> parse_state" where
  "final_state st cmds =
     st\<lparr>fuse_list := fuse_list st @ map (drop 1) (filter (\<lambda>c. take 1 c = ''L'') cmds),
        num_fuses := (case declared_count cmds of None \<Rightarrow> num_fuses st | Some n \<Rightarrow> Some (int n)),
        default_fuse := (if filter (\<lambda>c. take 1 c = ''F'') cmds = [] then default_fuse st
                         else declared_default cmds)\<rparr>"

section \<open>Properties of the term decoder\<close>

lemma term_loop_in_range:
  "\<forall>i \<in> set idx. Suc i < length fm \<Longrightarrow>
   term_loop fm idx = Inr (\<not> (\<exists>i \<in> set idx. fm ! i = 0 \<and> fm ! Suc i = 0))"
  by (induction idx) (auto simp: getitem_def)

lemma set_range3_even: "set (range3 s (s + 2 * n) 2) = (\<lambda>k. s + 2 * k) ` {..<n}"
  by (auto simp: range3_def)

lemma is_term_nonzero_even:
  assumes "s + 2 * n \<le> length fm"
  shows "is_term_nonzero fm (s, s + 2 * n) =
         Inr (\<not> (\<exists>k<n. fm ! (s + 2 * k) = 0 \<and> fm ! (s + 2 * k + 1) = 0))"
proof -
  have "\<forall>i \<in> set (range3 s (s + 2 * n) 2). Suc i < length fm"
    using assms by (auto simp: set_range3_even)
  then have "term_loop fm (range3 s (s + 2 * n) 2) =
      Inr (\<not> (\<exists>i \<in> set (range3 s (s + 2 * n) 2). fm ! i = 0 \<and> fm ! Suc i = 0))"
    by (rule term_loop_in_range)
  then show ?thesis
    by (auto simp: is_term_nonzero_def set_range3_even)
qed

lemma collect_loop_in_range:
  "\<forall>i \<in> set idx. s + i < length fm \<Longrightarrow>
   collect_loop fm s idx = Inr (filter (\<lambda>i. fm ! (s + i) = 0) idx)"
  by (induction idx) (auto simp: getitem_def)

lemma collect_and_terms_in_range:
  assumes "e \<le> length fm"
  shows "collect_and_terms fm (s, e) = Inr (filter (\<lambda>i. fm ! (s + i) = 0) [0..<e - s])"
  unfolding collect_and_terms_def fst_conv snd_conv
  by (rule collect_loop_in_range) (use assms in auto)

text \<open>
  Claim C4. For a fuse map that holds the 32 fuses of a row, \<open>is_term_nonzero\<close> returns
  false exactly when some input column \<open>k\<close> in \<open>[0, 16)\<close> has both its fuses, at
  \<open>start + 2k\<close> and \<open>start + 2k + 1\<close>, equal to 0, and true otherwise.
\<close>

theorem is_term_nonzero_row:
  assumes "start + 32 \<le> length fm"
  shows "is_term_nonzero fm (start, start + 32) =
         Inr (\<not> (\<exists>k<16. fm ! (start + 2 * k) = 0 \<and> fm ! (start + 2 * k + 1) = 0))"
  using is_term_nonzero_even [of start 16 fm] assms by simp

theorem is_term_nonzero_row_witness:
  "0 + 32 \<le> length (0 # 0 # replicate 30 (1::int)) \<and>
   is_term_nonzero (0 # 0 # replicate 30 1) (0, 0 + 32) = Inr False"
proof -
  let ?fm = "0 # 0 # replicate 30 (1::int)"
  have len: "0 + 32 \<le> length ?fm" by simp
  have ex: "\<exists>k<16. ?fm ! (0 + 2 * k) = 0 \<and> ?fm ! (0 + 2 * k + 1) = 0"
    by (rule exI [of _ 0]) simp
  have "is_term_nonzero ?fm (0, 0 + 32) =
      Inr (\<not> (\<exists>k<16. ?fm ! (0 + 2 * k) = 0 \<and> ?fm ! (0 + 2 * k + 1) = 0))"
    by (rule is_term_nonzero_row [OF len])
  also have "\<dots> = Inr False" using ex by blast
  finally show ?thesis using len by blast
qed

text \<open>
  Claim C5. For a fuse map that holds the fuses of the row \<open>[start, stop)\<close>,
  \<open>collect_and_terms\<close> returns, in increasing order, exactly the relative positions
  \<open>i\<close> in \<open>[0, stop - start)\<close> with \<open>fusemap[start + i] = 0\<close>; when the fuses of the row
  are bits, the result is empty if and only if every fuse of the row is 1.
\<close>

theorem collect_and_terms_row:
  assumes "stop \<le> length fm"
  shows "collect_and_terms fm (start, stop) =
           Inr (filter (\<lambda>i. fm ! (start + i) = 0) [0..<stop - start]) \<and>
         ((\<forall>i<stop - start. fm ! (start + i) = 0 \<or> fm ! (start + i) = 1) \<longrightarrow>
          (collect_and_terms fm (start, stop) = Inr [] \<longleftrightarrow>
           (\<forall>i<stop - start. fm ! (start + i) = 1)))"
  using collect_and_terms_in_range [OF assms, of start]
  by (auto simp: filter_empty_conv)

theorem collect_and_terms_row_witness:
  "4 \<le> length [1, 0, 1, 0 :: int] \<and> collect_and_terms [1, 0, 1, 0] (0, 4) = Inr [1, 3] \<and>
   2 \<le> length [1, 1 :: int] \<and> collect_and_terms [1, 1] (0, 2) = Inr []"
proof -
  have a: "4 \<le> length [1, 0, 1, 0 :: int]" and b: "2 \<le> length [1, 1 :: int]" by simp_all
  have u4: "[0..<4] = [0, 1, 2, 3]" and u2: "[0..<2] = [0, 1]" by (simp_all add: upt_conv_Cons)
  show ?thesis
    using collect_and_terms_row [OF a, of 0] collect_and_terms_row [OF b, of 0]
    by (simp add: u4 u2)
qed

text \<open>
  Claim C9 says that \<open>is_term_nonzero\<close> is false if and only if every input column
  of the row has both fuses 0, and that setting any single fuse to 1 in a dead row makes
  it live. The code returns false as soon as one column has both fuses 0: a row with one
  such column and fifteen others untouched is dead, and a row of 32 zeros stays dead when
  one fuse is set.
\<close>

theorem is_row_live_every_column_counterexample:
  "is_term_nonzero (0 # 0 # replicate 30 1) (0, 32) = Inr False \<and>
   \<not> (\<forall>k<16. (0 # 0 # replicate 30 (1::int)) ! (2 * k) = 0 \<and>
                (0 # 0 # replicate 30 (1::int)) ! (2 * k + 1) = 0) \<and>
   is_term_nonzero (replicate 32 0) (0, 32) = Inr False \<and>
   is_term_nonzero ((replicate 32 0)[0 := 1]) (0, 32) = Inr False"
proof -
  let ?a = "0 # 0 # replicate 30 (1::int)"
  have a: "is_term_nonzero ?a (0, 0 + 2 * 16) = Inr False"
    by (subst is_term_nonzero_even) (auto intro: exI [of _ 0])
  have na: "\<not> (\<forall>k<16. ?a ! (2 * k) = 0 \<and> ?a ! (2 * k + 1) = 0)"
    by (auto intro: exI [of _ 1])
  have b: "is_term_nonzero (replicate 32 0) (0, 0 + 2 * 16) = Inr False"
    by (subst is_term_nonzero_even) (auto intro: exI [of _ 0])
  have c: "is_term_nonzero ((replicate 32 0)[0 := 1]) (0, 0 + 2 * 16) = Inr False"
    by (subst is_term_nonzero_even) (auto intro: exI [of _ 1])
  from a na b c show ?thesis by simp
qed

text \<open>
  Claim C9, amended. For a fuse map that holds the 32 fuses of a row, \<open>is_term_nonzero\<close>
  is false if and only if at least one input column has both fuses 0; and when exactly
  one column has both fuses 0, setting either fuse of that column to 1 makes the row
  live.
\<close>

theorem is_row_live_some_column:
  assumes "start + 32 \<le> length fm"
  shows "(is_term_nonzero fm (start, start + 32) = Inr False \<longleftrightarrow>
            (\<exists>k<16. fm ! (start + 2 * k) = 0 \<and> fm ! (start + 2 * k + 1) = 0)) \<and>
         (\<forall>k<16. \<forall>j<2.
            fm ! (start + 2 * k) = 0 \<and> fm ! (start + 2 * k + 1) = 0 \<and>
            (\<forall>k'<16. k' \<noteq> k \<longrightarrow> \<not> (fm ! (start + 2 * k') = 0 \<and> fm ! (start + 2 * k' + 1) = 0))
            \<longrightarrow> is_term_nonzero (fm[start + 2 * k + j := 1]) (start, start + 32) = Inr True)"
proof (intro conjI allI impI)
  show "is_term_nonzero fm (start, start + 32) = Inr False \<longleftrightarrow>
            (\<exists>k<16. fm ! (start + 2 * k) = 0 \<and> fm ! (start + 2 * k + 1) = 0)"
    using is_term_nonzero_even [of start 16 fm] assms by auto
next
  fix k j :: nat
  assume k: "k < 16" and j: "j < 2"
    and h: "fm ! (start + 2 * k) = 0 \<and> fm ! (start + 2 * k + 1) = 0 \<and>
            (\<forall>k'<16. k' \<noteq> k \<longrightarrow> \<not> (fm ! (start + 2 * k') = 0 \<and> fm ! (start + 2 * k' + 1) = 0))"
  let ?fm = "fm[start + 2 * k + j := 1]"
  have len: "start + 2 * 16 \<le> length ?fm" using assms by simp
  have "\<not> (?fm ! (start + 2 * k') = 0 \<and> ?fm ! (start + 2 * k' + 1) = 0)" if "k' < 16" for k'
  proof (cases "k' = k")
    case True
    have "j = 0 \<or> j = 1" using j by auto
    then show ?thesis using True k assms by (auto simp: nth_list_update)
  next
    case False
    then have "start + 2 * k' \<noteq> start + 2 * k + j" "start + 2 * k' + 1 \<noteq> start + 2 * k + j"
      using j by presburger+
    then show ?thesis using h that False by (simp add: nth_list_update)
  qed
  then show "is_term_nonzero ?fm (start, start + 32) = Inr True"
    using is_term_nonzero_even [OF len] by auto
qed

theorem is_row_live_some_column_witness:
  "0 + 32 \<le> length (0 # 0 # replicate 30 (1::int)) \<and>
   is_term_nonzero (0 # 0 # replicate 30 1) (0, 0 + 32) = Inr False \<and>
   is_term_nonzero ((0 # 0 # replicate 30 1)[0 + 2 * 0 + 1 := 1]) (0, 0 + 32) = Inr True"
proof -
  let ?fm = "0 # 0 # replicate 30 (1::int)"
  have len: "0 + 32 \<le> length ?fm" by simp
  note row = is_row_live_some_column [OF len]
  have ex: "\<exists>k<16. ?fm ! (0 + 2 * k) = 0 \<and> ?fm ! (0 + 2 * k + 1) = 0"
    by (rule exI [of _ 0]) simp
  have dead: "is_term_nonzero ?fm (0, 0 + 32) = Inr False"
    using row ex by blast
  have only: "?fm ! (0 + 2 * 0) = 0 \<and> ?fm ! (0 + 2 * 0 + 1) = 0 \<and>
      (\<forall>k'<16. k' \<noteq> 0 \<longrightarrow> \<not> (?fm ! (0 + 2 * k') = 0 \<and> ?fm ! (0 + 2 * k' + 1) = 0))"
    by (auto simp: nth_Cons')
  have "is_term_nonzero (?fm[0 + 2 * 0 + 1 := 1]) (0, 0 + 32) = Inr True"
    using row [THEN conjunct2, rule_format, of 0 1] only by simp
  with len dead show ?thesis by blast
qed

section \<open>Properties of construction and mode detection\<close>

lemma getitem_in [simp]: "i < length xs \<Longrightarrow> getitem xs i = Inr (xs ! i)"
  by (simp add: getitem_def)

lemma bind_err_Inr [simp]: "bind_err (Inr x) f = f x"
  by (simp add: bind_err_def)

lemma bind_err_Inl [simp]: "bind_err (Inl e) f = Inl e"
  by (simp add: bind_err_def)

lemma G16V8MA_new_accepts:
  "2193 < length fm \<Longrightarrow> fm ! 2192 = 1 \<Longrightarrow> fm ! 2193 = 1 \<Longrightarrow>
   G16V8MA_new fm pm = Inr (G16V8MA (PALBase_init fm pm))"
  by (simp add: G16V8MA_new_def py_or_def fuse_ne_def)

text \<open>
  Claim C1 says that the auto-detecting entry point builds the Complex variant when
  fuses 2192 and 2193 are both 1. In the code the first test of \<open>G16V8\<close>,
  \<open>fusemap[2192] == 1 or fusemap[2193] == 0\<close>, is already true there, so the Simple
  constructor is called, and it rejects the pattern. The Complex constructor itself
  accepts it.
\<close>

theorem G16V8_complex_pattern_rejected:
  assumes "2193 < length fm" and "fm ! 2192 = 1" and "fm ! 2193 = 1"
  shows "G16V8 fm pm = Inl mismatch"
  using assms by (simp add: G16V8_def G16V8AS_new_def py_or_def fuse_ne_def fuse_eq_def)

theorem G16V8_complex_pattern_rejected_witness:
  "2193 < length (replicate 2194 (1::int)) \<and> replicate 2194 (1::int) ! 2192 = 1 \<and>
   replicate 2194 (1::int) ! 2193 = 1 \<and>
   G16V8 (replicate 2194 1) None = Inl (TypeError ''incorrect device chosen'')"
proof -
  have a: "2193 < length (replicate 2194 (1::int))" by simp
  have b: "replicate 2194 (1::int) ! 2192 = 1" by simp
  have c: "replicate 2194 (1::int) ! 2193 = 1" by simp
  show ?thesis
    using G16V8_complex_pattern_rejected [OF a b c, of None] a b c
    by (simp add: mismatch_def)
qed

lemma G16V8_never_complex: "G16V8 fm pm \<noteq> Inr (G16V8MA d)"
  by (auto simp: G16V8_def G16V8AS_new_def G16V8MS_new_def G16V8MA_new_def py_or_def fuse_ne_def
      fuse_eq_def bind_err_def getitem_def split: sum.splits if_splits)

text \<open>
  Claim C7. For a fuse map that holds the two configuration fuses, constructing
  \<open>G16V8MS\<close> raises the device-mismatch error whenever the fuses are not \<open>(0, 1)\<close>, and
  constructing \<open>G16V8AS\<close> raises it whenever they are not \<open>(1, 0)\<close>; the run that asked
  for the variant ends with that error and has printed nothing.
\<close>

theorem explicit_variant_mismatch:
  assumes "2193 < length fm"
  shows "((fm ! 2192, fm ! 2193) \<noteq> (0, 1) \<longrightarrow>
            G16V8MS_new fm pm = Inl mismatch \<and>
            disassemble ''G16V8MS'' fm pm = ([], Some mismatch)) \<and>
         ((fm ! 2192, fm ! 2193) \<noteq> (1, 0) \<longrightarrow>
            G16V8AS_new fm pm = Inl mismatch \<and>
            disassemble ''G16V8AS'' fm pm = ([], Some mismatch))"
  using assms
  by (auto simp: G16V8MS_new_def G16V8AS_new_def py_or_def fuse_ne_def disassemble_def
      device_type_map_def raise_or_def)

theorem explicit_variant_mismatch_witness:
  "2193 < length ((replicate 2194 (0::int))[2192 := 1]) \<and>
   G16V8MS_new ((replicate 2194 0)[2192 := 1]) None = Inl (TypeError ''incorrect device chosen'') \<and>
   disassemble ''G16V8MS'' ((replicate 2194 0)[2192 := 1]) None =
     ([], Some (TypeError ''incorrect device chosen'')) \<and>
   G16V8AS_new (replicate 2194 1) None = Inl (TypeError ''incorrect device chosen'') \<and>
   disassemble ''G16V8AS'' (replicate 2194 1) None =
     ([], Some (TypeError ''incorrect device chosen''))"
proof -
  have a: "2193 < length ((replicate 2194 (0::int))[2192 := 1])" by simp
  have b: "2193 < length (replicate 2194 (1::int))" by simp
  show ?thesis
    using explicit_variant_mismatch [OF a, of None] explicit_variant_mismatch [OF b, of None] a
    by (simp add: mismatch_def)
qed

section \<open>Properties of the equations of a macrocell\<close>

lemma is_term_nonzero_row32:
  assumes "row32 (length fm) r"
  shows "is_term_nonzero fm r = Inr (row_live fm r)"
proof -
  obtain s where r: "r = (s, s + 32)" and len: "s + 32 \<le> length fm"
    using assms by (cases r) (auto simp: row32_def)
  have "set (range3 s (s + 32) 2) = (\<lambda>k. s + 2 * k) ` {..<16}"
    using set_range3_even [of s 16] by simp
  then have "\<forall>i \<in> set (range3 s (s + 32) 2). Suc i < length fm"
    using len by auto
  then show ?thesis
    unfolding r is_term_nonzero_def row_live_def fst_conv snd_conv list_ex_iff
    by (rule term_loop_in_range)
qed

lemma collect_and_terms_row32:
  assumes "row32 (length fm) r"
  shows "collect_and_terms fm r = Inr (row_literals fm r)"
proof (cases r)
  case (Pair s e)
  then show ?thesis
    using assms collect_and_terms_in_range [of e fm s]
    by (simp add: row32_def row_literals_def)
qed

lemma d_terms_loop_row32:
  "\<forall>r \<in> set rows. row32 (length fm) r \<Longrightarrow> d_terms_loop fm rows = Inr (live_terms fm rows)"
  by (induction rows)
    (simp_all add: live_terms_def is_term_nonzero_row32 collect_and_terms_row32)

lemma live_terms_Cons:
  "live_terms fm (r # rows) =
     (if row_live fm r \<and> row_literals fm r \<noteq> [] then row_literals fm r # live_terms fm rows
      else live_terms fm rows)"
  by (simp add: live_terms_def)

lemma term_rows_row32:
  assumes "r \<in> set (term_rows a (a + 32 * m))" and "a + 32 * m \<le> n"
  shows "row32 n r"
proof -
  have "(a + 32 * m - a + (32 - 1)) div 32 = m" by simp
  then obtain j where "j < m" and "r = (a + 32 * j, a + 32 * j + 32)"
    using assms(1) by (auto simp: term_rows_def range3_def)
  then show ?thesis using assms(2) by (simp add: row32_def)
qed

lemma G16V8_cell_layout:
  assumes "config \<in> set G16V8_macrocell_config"
  shows "\<exists>a. oe_fuses config = (a, a + 32) \<and>
             terms_fuses config = term_rows (a + 32) (a + 32 + 32 * 7) \<and> a + 256 \<le> 2048"
  using assms unfolding G16V8_macrocell_config_def by (elim set_ConsD [elim_format] disjE) simp_all

lemma G16V8_rows_row32:
  assumes "config \<in> set G16V8_macrocell_config" and "2048 \<le> n"
  shows "row32 n (oe_fuses config) \<and> (\<forall>r \<in> set (terms_fuses config). row32 n r)"
proof -
  obtain a where oe: "oe_fuses config = (a, a + 32)"
    and rows: "terms_fuses config = term_rows (a + 32) (a + 32 + 32 * 7)"
    and a: "a + 256 \<le> 2048"
    using G16V8_cell_layout [OF assms(1)] by blast
  have "row32 n r" if "r \<in> set (terms_fuses config)" for r
    using that a assms(2) unfolding rows by (intro term_rows_row32 [of r "a + 32" 7 n]) simp_all
  moreover have "row32 n (oe_fuses config)"
    using oe a assms(2) by (simp add: row32_def)
  ultimately show ?thesis by blast
qed

lemma G16V8_ac1_fuse_bound:
  "config \<in> set G16V8_macrocell_config \<Longrightarrow> ac1_fuse config < 2128"
  by (auto simp: G16V8_macrocell_config_def)

lemma G16V8MS_eqns_ac1_zero:
  assumes "config \<in> set G16V8_macrocell_config"
    and "2128 \<le> length (fusemap d)"
    and "get_pin_name d (pin config) = Inr name"
    and "fusemap d ! ac1_fuse config = 0"
  shows "G16V8MS_get_macrocell_eqns d config =
         Inr (if live_terms (fusemap d) (oe_fuses config # terms_fuses config) = [] then []
              else [(name @ ''.d'',
                     ORList (live_terms (fusemap d) (oe_fuses config # terms_fuses config)))])"
proof -
  have rows: "row32 (length (fusemap d)) (oe_fuses config)"
    "\<forall>r \<in> set (terms_fuses config). row32 (length (fusemap d)) r"
    using G16V8_rows_row32 [OF assms(1), of "length (fusemap d)"] assms(2) by auto
  have ac1: "getitem (fusemap d) (ac1_fuse config) = Inr 0"
    using G16V8_ac1_fuse_bound [OF assms(1)] assms(2,4) by simp
  show ?thesis
    unfolding G16V8MS_get_macrocell_eqns_def
    by (simp add: assms(3) is_term_nonzero_row32 [OF rows(1)] collect_and_terms_row32 [OF rows(1)]
        d_terms_loop_row32 [OF rows(2)] ac1 live_terms_Cons Let_def)
qed

lemma G16V8AS_eqns_ac1_zero:
  assumes "config \<in> set G16V8_macrocell_config"
    and "2128 \<le> length (fusemap d)"
    and "get_pin_name d (pin config) = Inr name"
    and "fusemap d ! ac1_fuse config = 0"
  shows "G16V8AS_get_macrocell_eqns d config =
         Inr (if live_terms (fusemap d) (oe_fuses config # terms_fuses config) = [] then []
              else [(name,
                     ORList (live_terms (fusemap d) (oe_fuses config # terms_fuses config)))])"
proof -
  have rows: "\<forall>r \<in> set (oe_fuses config # terms_fuses config). row32 (length (fusemap d)) r"
    using G16V8_rows_row32 [OF assms(1), of "length (fusemap d)"] assms(2) by auto
  have ac1: "getitem (fusemap d) (ac1_fuse config) = Inr 0"
    using G16V8_ac1_fuse_bound [OF assms(1)] assms(2,4) by simp
  show ?thesis
    unfolding G16V8AS_get_macrocell_eqns_def
    by (simp add: assms(3) d_terms_loop_row32 [OF rows] ac1 del: d_terms_loop.simps)
qed

lemma G16V8AS_eqns_ac1_set:
  assumes "config \<in> set G16V8_macrocell_config"
    and "2128 \<le> length (fusemap d)"
    and "fusemap d ! ac1_fuse config \<noteq> 0"
  shows "G16V8AS_get_macrocell_eqns d config = Inr []"
  using G16V8_ac1_fuse_bound [OF assms(1)] assms(2,3)
  by (simp add: G16V8AS_get_macrocell_eqns_def)

section \<open>Concrete fuse maps\<close>

lemma upt32:
  "[0..<32] = [0, 1, 2, 3, 4, 5, 6, 7, 8, 9, 10, 11, 12, 13, 14, 15, 16, 17, 18, 19, 20, 21,
               22, 23, 24, 25, 26, 27, 28, 29, 30, 31]"
  by (simp add: upt_conv_Cons)

lemma upt16: "[0..<16] = [0, 1, 2, 3, 4, 5, 6, 7, 8, 9, 10, 11, 12, 13, 14, 15]"
  by (simp add: upt_conv_Cons)

lemma range3_row: "range3 s (s + 32) 2 = map (\<lambda>j. s + 2 * j) [0..<16]"
  by (simp add: range3_def)

lemmas range3_rows =
  range3_row [of 0, simplified] range3_row [of 32, simplified] range3_row [of 64, simplified]
  range3_row [of 96, simplified] range3_row [of 128, simplified]
  range3_row [of 160, simplified] range3_row [of 192, simplified]
  range3_row [of 224, simplified]

lemma cell0:
  "G16V8_macrocell_config ! 0 =
     \<lparr>pin = 19, oe_fuses = (0, 32),
      terms_fuses = [(32, 64), (64, 96), (96, 128), (128, 160), (160, 192), (192, 224),
                     (224, 256)],
      ac1_fuse = 2120, xor_fuse = 2048\<rparr>"
  by (simp add: G16V8_macrocell_config_def term_rows_def range3_def upt_conv_Cons)

lemma cell0_in: "G16V8_macrocell_config ! 0 \<in> set G16V8_macrocell_config"
  by (simp add: G16V8_macrocell_config_def)

lemma default_pinmap:
  "pinmap (PALBase_init fm None) =
     [''PIN01'', ''PIN02'', ''PIN03'', ''PIN04'', ''PIN05'', ''PIN06'', ''PIN07'', ''PIN08'',
      ''PIN09'', ''PIN10'', ''PIN11'', ''PIN12'', ''PIN13'', ''PIN14'', ''PIN15'', ''PIN16'',
      ''PIN17'', ''PIN18'', ''PIN19'', ''PIN20'']"
proof -
  have "map (\<lambda>x. ''PIN'' @ fmt_02d x) [1..<21] =
     [''PIN01'', ''PIN02'', ''PIN03'', ''PIN04'', ''PIN05'', ''PIN06'', ''PIN07'', ''PIN08'',
      ''PIN09'', ''PIN10'', ''PIN11'', ''PIN12'', ''PIN13'', ''PIN14'', ''PIN15'', ''PIN16'',
      ''PIN17'', ''PIN18'', ''PIN19'', ''PIN20'']"
    by code_simp
  then show ?thesis by (simp add: PALBase_init_def)
qed

lemma pin19: "get_pin_name (PALBase_init fm None) (pin (G16V8_macrocell_config ! 0)) = Inr ''PIN19''"
  by (simp add: get_pin_name_def default_pinmap cell0)

lemma fusemap_init [simp]: "fusemap (PALBase_init fm pm) = fm"
  by (simp add: PALBase_init_def)

text \<open>
  Two fuse maps of 2194 fuses, read at the macrocell of pin 19. In the first every fuse
  of the array is 0, so no row is live. In the second every fuse is 1 but fuse 32 (the
  first fuse of the first product-term row), the AC1 fuse of the macrocell and one
  configuration fuse: the output-enable row is live with no literal, and the first
  product-term row has the single literal 0.
\<close>

lemma live_terms_all_dead:
  "live_terms ((replicate 2194 0)[i := 1])
     (oe_fuses (G16V8_macrocell_config ! 0) # terms_fuses (G16V8_macrocell_config ! 0)) = []"
  if "256 \<le> i"
  unfolding cell0 using that
  by (simp add: live_terms_def row_live_def range3_rows upt16)

lemma live_terms_one_literal:
  "live_terms ((replicate 2194 1)[32 := 0, 2120 := 0, i := 0])
     (oe_fuses (G16V8_macrocell_config ! 0) # terms_fuses (G16V8_macrocell_config ! 0)) = [[0]]"
  if "256 \<le> i"
  unfolding cell0 using that
  by (simp add: live_terms_def row_live_def row_literals_def range3_rows upt32 upt16
      nth_list_update)

lemma oe_row_one_literal:
  "is_term_nonzero ((replicate 2194 1)[32 := 0, 2120 := 0, i := 0]) (0, 32) = Inr True"
  if "256 \<le> i"
  using that is_term_nonzero_even [of 0 16 "(replicate 2194 1)[32 := 0, 2120 := 0, i := 0]"]
  by (auto simp: nth_list_update)

section \<open>The merged equations of the Registered and Simple variants\<close>

lemma merged_terms_live_terms: "merged_terms fm oe rows = live_terms fm (oe # rows)"
  by (simp add: merged_terms_def live_terms_Cons)

text \<open>
  Claim C2 says that the Registered variant, for a macrocell with AC1 = 0, returns a
  single \<open>.d\<close> equation whose first product term is the output-enable row whenever that
  row is live. The code returns no equation when no row survives, and leaves a live
  output-enable row out when it has no literal.
\<close>

theorem G16V8MS_single_equation_counterexample:
  "G16V8MS_new ((replicate 2194 0)[2193 := 1]) None =
     Inr (G16V8MS (PALBase_init ((replicate 2194 0)[2193 := 1]) None)) \<and>
   (replicate 2194 (0::int))[2193 := 1] ! ac1_fuse (G16V8_macrocell_config ! 0) = 0 \<and>
   G16V8MS_get_macrocell_eqns (PALBase_init ((replicate 2194 0)[2193 := 1]) None)
     (G16V8_macrocell_config ! 0) = Inr [] \<and>
   G16V8MS_new ((replicate 2194 1)[32 := 0, 2120 := 0, 2192 := 0]) None =
     Inr (G16V8MS (PALBase_init ((replicate 2194 1)[32 := 0, 2120 := 0, 2192 := 0]) None)) \<and>
   (replicate 2194 (1::int))[32 := 0, 2120 := 0, 2192 := 0] ! ac1_fuse (G16V8_macrocell_config ! 0) = 0 \<and>
   is_term_nonzero ((replicate 2194 1)[32 := 0, 2120 := 0, 2192 := 0])
     (oe_fuses (G16V8_macrocell_config ! 0)) = Inr True \<and>
   G16V8MS_get_macrocell_eqns (PALBase_init ((replicate 2194 1)[32 := 0, 2120 := 0, 2192 := 0]) None)
     (G16V8_macrocell_config ! 0) = Inr [(''PIN19.d'', ORList [[0]])]"
proof -
  let ?a = "(replicate 2194 (0::int))[2193 := 1]"
  let ?b = "(replicate 2194 (1::int))[32 := 0, 2120 := 0, 2192 := 0]"
  have a1: "G16V8MS_new ?a None = Inr (G16V8MS (PALBase_init ?a None))"
    by (simp add: G16V8MS_new_def py_or_def fuse_ne_def)
  have a2: "?a ! ac1_fuse (G16V8_macrocell_config ! 0) = 0"
    by (simp add: cell0)
  have a3: "G16V8MS_get_macrocell_eqns (PALBase_init ?a None) (G16V8_macrocell_config ! 0) = Inr []"
    using a2 by (subst G16V8MS_eqns_ac1_zero [OF cell0_in _ pin19]) (simp_all add: live_terms_all_dead)
  have b1: "G16V8MS_new ?b None = Inr (G16V8MS (PALBase_init ?b None))"
    by (simp add: G16V8MS_new_def py_or_def fuse_ne_def)
  have b2: "?b ! ac1_fuse (G16V8_macrocell_config ! 0) = 0"
    by (simp add: cell0)
  have b3: "is_term_nonzero ?b (oe_fuses (G16V8_macrocell_config ! 0)) = Inr True"
    using oe_row_one_literal [of 2192] by (simp add: cell0)
  have b4: "G16V8MS_get_macrocell_eqns (PALBase_init ?b None) (G16V8_macrocell_config ! 0) =
      Inr [(''PIN19.d'', ORList [[0]])]"
    using b2 by (subst G16V8MS_eqns_ac1_zero [OF cell0_in _ pin19]) (simp_all add: live_terms_one_literal)
  show ?thesis by (intro conjI a1 a2 a3 b1 b2 b3 b4)
qed

text \<open>
  Claim C2, amended. For the Registered variant, for a fuse map that holds the array and
  the AC1 fuses, and every macrocell of the table whose AC1 fuse is 0,
  \<open>get_macrocell_eqns\<close> returns no equation when no row is live and non-empty, and
  otherwise a single equation whose name carries the suffix \<open>.d\<close> and whose OR expression
  consists of the output-enable row's AND term, prepended when that row is live and
  non-empty, followed by all live, non-empty product-term rows in table order.
\<close>

theorem G16V8MS_merged_equation:
  assumes "config \<in> set G16V8_macrocell_config"
    and "2128 \<le> length (fusemap d)"
    and "get_pin_name d (pin config) = Inr name"
    and "fusemap d ! ac1_fuse config = 0"
  shows "G16V8MS_get_macrocell_eqns d config =
         Inr (if merged_terms (fusemap d) (oe_fuses config) (terms_fuses config) = [] then []
              else [(name @ ''.d'',
                     ORList (merged_terms (fusemap d) (oe_fuses config) (terms_fuses config)))])"
  using G16V8MS_eqns_ac1_zero [OF assms] by (simp only: merged_terms_live_terms)

theorem G16V8MS_merged_equation_witness:
  "G16V8_macrocell_config ! 0 \<in> set G16V8_macrocell_config \<and>
   2128 \<le> length (fusemap (PALBase_init ((replicate 2194 1)[32 := 0, 2120 := 0, 2192 := 0]) None)) \<and>
   get_pin_name (PALBase_init ((replicate 2194 1)[32 := 0, 2120 := 0, 2192 := 0]) None)
     (pin (G16V8_macrocell_config ! 0)) = Inr ''PIN19'' \<and>
   fusemap (PALBase_init ((replicate 2194 1)[32 := 0, 2120 := 0, 2192 := 0]) None) !
     ac1_fuse (G16V8_macrocell_config ! 0) = 0 \<and>
   G16V8MS_get_macrocell_eqns (PALBase_init ((replicate 2194 1)[32 := 0, 2120 := 0, 2192 := 0]) None)
     (G16V8_macrocell_config ! 0) = Inr [(''PIN19.d'', ORList [[0]])]"
proof -
  let ?d = "PALBase_init ((replicate 2194 (1::int))[32 := 0, 2120 := 0, 2192 := 0]) None"
  have len: "2128 \<le> length (fusemap ?d)" by simp
  have ac1: "fusemap ?d ! ac1_fuse (G16V8_macrocell_config ! 0) = 0" by (simp add: cell0)
  have "merged_terms (fusemap ?d) (oe_fuses (G16V8_macrocell_config ! 0))
      (terms_fuses (G16V8_macrocell_config ! 0)) = [[0]]"
    by (simp add: merged_terms_live_terms live_terms_one_literal)
  with G16V8MS_merged_equation [OF cell0_in len pin19 ac1] cell0_in len pin19 ac1
  show ?thesis by simp
qed

text \<open>
  Claim C6 says that the Simple variant, for a macrocell with AC1 = 0, puts the
  output-enable row ahead of the product-term rows whenever that row is live. The code
  leaves a live output-enable row out when it has no literal.
\<close>

theorem G16V8AS_live_oe_row_counterexample:
  "G16V8AS_new ((replicate 2194 1)[32 := 0, 2120 := 0, 2193 := 0]) None =
     Inr (G16V8AS (PALBase_init ((replicate 2194 1)[32 := 0, 2120 := 0, 2193 := 0]) None)) \<and>
   (replicate 2194 (1::int))[32 := 0, 2120 := 0, 2193 := 0] ! ac1_fuse (G16V8_macrocell_config ! 0) = 0 \<and>
   is_term_nonzero ((replicate 2194 1)[32 := 0, 2120 := 0, 2193 := 0])
     (oe_fuses (G16V8_macrocell_config ! 0)) = Inr True \<and>
   collect_and_terms ((replicate 2194 1)[32 := 0, 2120 := 0, 2193 := 0])
     (oe_fuses (G16V8_macrocell_config ! 0)) = Inr [] \<and>
   G16V8AS_get_macrocell_eqns (PALBase_init ((replicate 2194 1)[32 := 0, 2120 := 0, 2193 := 0]) None)
     (G16V8_macrocell_config ! 0) = Inr [(''PIN19'', ORList [[0]])]"
proof -
  let ?b = "(replicate 2194 (1::int))[32 := 0, 2120 := 0, 2193 := 0]"
  have b1: "G16V8AS_new ?b None = Inr (G16V8AS (PALBase_init ?b None))"
    by (simp add: G16V8AS_new_def py_or_def fuse_ne_def)
  have b2: "?b ! ac1_fuse (G16V8_macrocell_config ! 0) = 0"
    by (simp add: cell0)
  have b3: "is_term_nonzero ?b (oe_fuses (G16V8_macrocell_config ! 0)) = Inr True"
    using oe_row_one_literal [of 2193] by (simp add: cell0)
  have b4: "collect_and_terms ?b (oe_fuses (G16V8_macrocell_config ! 0)) = Inr []"
    using collect_and_terms_in_range [of 32 ?b 0] by (simp add: cell0 nth_list_update)
  have b5: "G16V8AS_get_macrocell_eqns (PALBase_init ?b None) (G16V8_macrocell_config ! 0) =
      Inr [(''PIN19'', ORList [[0]])]"
    using b2 by (subst G16V8AS_eqns_ac1_zero [OF cell0_in _ pin19]) (simp_all add: live_terms_one_literal)
  show ?thesis by (intro conjI b1 b2 b3 b4 b5)
qed

text \<open>
  Claim C6, amended. For the Simple variant, for a fuse map that holds the array and the
  AC1 fuses, and every macrocell of the table: when its AC1 fuse is 1,
  \<open>get_macrocell_eqns\<close> returns no equation; when its AC1 fuse is 0, it returns at most
  one equation, unsuffixed, equal to the OR of the output-enable row, when that row is
  live and non-empty, prepended to all live, non-empty product-term rows, and no
  equation when no row survives.
\<close>

theorem G16V8AS_equations:
  assumes "config \<in> set G16V8_macrocell_config"
    and "2128 \<le> length (fusemap d)"
    and "get_pin_name d (pin config) = Inr name"
  shows "(fusemap d ! ac1_fuse config = 1 \<longrightarrow> G16V8AS_get_macrocell_eqns d config = Inr []) \<and>
         (fusemap d ! ac1_fuse config = 0 \<longrightarrow>
          G16V8AS_get_macrocell_eqns d config =
            Inr (if merged_terms (fusemap d) (oe_fuses config) (terms_fuses config) = [] then []
                 else [(name,
                        ORList (merged_terms (fusemap d) (oe_fuses config)
                                  (terms_fuses config)))]))"
  using G16V8AS_eqns_ac1_zero [OF assms] G16V8AS_eqns_ac1_set [OF assms(1,2)]
  by (simp add: merged_terms_live_terms)

theorem G16V8AS_equations_witness:
  "G16V8_macrocell_config ! 0 \<in> set G16V8_macrocell_config \<and>
   2128 \<le> length (fusemap (PALBase_init (replicate 2194 1) None)) \<and>
   get_pin_name (PALBase_init (replicate 2194 1) None) (pin (G16V8_macrocell_config ! 0)) =
     Inr ''PIN19'' \<and>
   fusemap (PALBase_init (replicate 2194 1) None) ! ac1_fuse (G16V8_macrocell_config ! 0) = 1 \<and>
   G16V8AS_get_macrocell_eqns (PALBase_init (replicate 2194 1) None)
     (G16V8_macrocell_config ! 0) = Inr [] \<and>
   fusemap (PALBase_init ((replicate 2194 1)[32 := 0, 2120 := 0, 2193 := 0]) None) !
     ac1_fuse (G16V8_macrocell_config ! 0) = 0 \<and>
   G16V8AS_get_macrocell_eqns (PALBase_init ((replicate 2194 1)[32 := 0, 2120 := 0, 2193 := 0]) None)
     (G16V8_macrocell_config ! 0) = Inr [(''PIN19'', ORList [[0]])]"
proof -
  let ?a = "PALBase_init (replicate 2194 (1::int)) None"
  let ?b = "PALBase_init ((replicate 2194 (1::int))[32 := 0, 2120 := 0, 2193 := 0]) None"
  have lena: "2128 \<le> length (fusemap ?a)" and lenb: "2128 \<le> length (fusemap ?b)" by simp_all
  have a1: "fusemap ?a ! ac1_fuse (G16V8_macrocell_config ! 0) = 1" by (simp add: cell0)
  have b1: "fusemap ?b ! ac1_fuse (G16V8_macrocell_config ! 0) = 0" by (simp add: cell0)
  have b2: "merged_terms (fusemap ?b) (oe_fuses (G16V8_macrocell_config ! 0))
      (terms_fuses (G16V8_macrocell_config ! 0)) = [[0]]"
    by (simp add: merged_terms_live_terms live_terms_one_literal)
  show ?thesis
    using G16V8AS_equations [OF cell0_in lena pin19] G16V8AS_equations [OF cell0_in lenb pin19]
      cell0_in lena pin19 a1 b1 b2
    by simp
qed

section \<open>Literal indices and the input-name table\<close>

lemma bind_err_eq_Inr:
  "bind_err m f = Inr y \<longleftrightarrow> (\<exists>x. m = Inr x \<and> f x = Inr y)"
  by (cases m) simp_all

lemma collect_loop_result:
  "collect_loop fm s idx = Inr t \<Longrightarrow> t = filter (\<lambda>i. fm ! (s + i) = 0) idx"
  by (induction idx arbitrary: t) (auto simp: getitem_def split: if_splits sum.splits)

lemma collect_and_terms_result:
  assumes "collect_and_terms fm r = Inr t"
  shows "sorted_wrt (<) t \<and> (\<forall>i \<in> set t. i < snd r - fst r)"
proof -
  have "t = filter (\<lambda>i. fm ! (fst r + i) = 0) [0..<snd r - fst r]"
    using assms unfolding collect_and_terms_def by (rule collect_loop_result)
  then show ?thesis by (simp add: sorted_wrt_filter)
qed

lemma d_terms_loop_result:
  "d_terms_loop fm rows = Inr ts \<Longrightarrow> t \<in> set ts \<Longrightarrow>
   \<exists>r \<in> set rows. collect_and_terms fm r = Inr t"
proof (induction rows arbitrary: ts)
  case Nil
  then show ?case by simp
next
  case (Cons r rows)
  then show ?case
    by (auto simp: bind_err_eq_Inr split: if_splits)
qed

lemma oe_eqns_result:
  "oe_eqns fm name oe = Inr eqns \<Longrightarrow> from_rows fm (oe # rows) eqns"
  by (auto simp: oe_eqns_def from_rows_def and_nodes_def bind_err_eq_Inr split: if_splits)

lemma from_rows_append:
  "from_rows fm rows (a @ b) \<longleftrightarrow> from_rows fm rows a \<and> from_rows fm rows b"
  by (auto simp: from_rows_def)

lemma from_rows_or:
  "d_terms_loop fm rows = Inr ts \<Longrightarrow> set rows \<subseteq> set rows' \<Longrightarrow>
   from_rows fm rows' [(name, ORList ts)]"
  using d_terms_loop_result by (fastforce simp: from_rows_def and_nodes_def)

lemma from_rows_Nil [simp]: "from_rows fm rows []"
  by (simp add: from_rows_def)

lemma P16L8_eqns_from_rows:
  assumes "P16L8_get_macrocell_eqns d config = Inr eqns"
  shows "from_rows (fusemap d) (oe_fuses config # terms_fuses config) eqns"
  using assms unfolding P16L8_get_macrocell_eqns_def
  by (auto simp: bind_err_eq_Inr from_rows_append oe_eqns_result
      intro!: from_rows_or split: if_splits)

lemma G16V8MA_eqns_from_rows:
  assumes "G16V8MA_get_macrocell_eqns d config = Inr eqns"
  shows "from_rows (fusemap d) (oe_fuses config # terms_fuses config) eqns"
  using assms unfolding G16V8MA_get_macrocell_eqns_def
  by (auto simp: bind_err_eq_Inr from_rows_append oe_eqns_result
      intro!: from_rows_or split: if_splits)

lemma G16V8AS_eqns_from_rows:
  assumes "G16V8AS_get_macrocell_eqns d config = Inr eqns"
  shows "from_rows (fusemap d) (oe_fuses config # terms_fuses config) eqns"
  using assms unfolding G16V8AS_get_macrocell_eqns_def
  by (auto simp: bind_err_eq_Inr simp del: d_terms_loop.simps
      intro!: from_rows_or split: if_splits)

lemma G16V8MS_eqns_from_rows:
  assumes "G16V8MS_get_macrocell_eqns d config = Inr eqns"
  shows "from_rows (fusemap d) (oe_fuses config # terms_fuses config) eqns"
proof -
  have "\<exists>r \<in> set (oe_fuses config # terms_fuses config). collect_and_terms (fusemap d) r = Inr t"
    if "(name, e) \<in> set eqns" and "t \<in> set (and_nodes e)" for name e t
    using assms that d_terms_loop_result [of "fusemap d" "terms_fuses config" _ t]
    unfolding G16V8MS_get_macrocell_eqns_def
    by (auto simp: bind_err_eq_Inr Let_def and_nodes_def split: if_splits)
  then show ?thesis
    unfolding from_rows_def by fastforce
qed

lemma P16L8_cell_layout:
  assumes "config \<in> set P16L8_macrocell_config"
  shows "\<exists>a. oe_fuses config = (a, a + 32) \<and>
             terms_fuses config = term_rows (a + 32) (a + 32 + 32 * 7) \<and> a + 256 \<le> 2048"
  using assms unfolding P16L8_macrocell_config_def by (elim set_ConsD [elim_format] disjE) simp_all

lemma P16L8_rows_row32:
  assumes "config \<in> set P16L8_macrocell_config" and "2048 \<le> n"
  shows "row32 n (oe_fuses config) \<and> (\<forall>r \<in> set (terms_fuses config). row32 n r)"
proof -
  obtain a where oe: "oe_fuses config = (a, a + 32)"
    and rows: "terms_fuses config = term_rows (a + 32) (a + 32 + 32 * 7)"
    and a: "a + 256 \<le> 2048"
    using P16L8_cell_layout [OF assms(1)] by blast
  have "row32 n r" if "r \<in> set (terms_fuses config)" for r
    using that a assms(2) unfolding rows by (intro term_rows_row32 [of r "a + 32" 7 n]) simp_all
  moreover have "row32 n (oe_fuses config)"
    using oe a assms(2) by (simp add: row32_def)
  ultimately show ?thesis by blast
qed

lemma from_rows_bound:
  assumes "from_rows fm rows eqns" and "\<forall>r \<in> set rows. row32 n r"
    and "(name, e) \<in> set eqns" and "t \<in> set (and_nodes e)"
  shows "sorted_wrt (<) t \<and> (\<forall>i \<in> set t. i < 32)"
proof -
  obtain r where r: "r \<in> set rows" and c: "collect_and_terms fm r = Inr t"
    using assms(1,3,4) unfolding from_rows_def by force
  have "snd r - fst r = 32" using assms(2) r by (auto simp: row32_def)
  then show ?thesis using collect_and_terms_result [OF c] by simp
qed

lemma input_names_loop_length:
  "input_names_loop d m = Inr names \<Longrightarrow> length names = 2 * length m"
  by (induction d m arbitrary: names rule: input_names_loop.induct)
    (auto simp: bind_err_eq_Inr)

lemma get_input_map_length:
  "get_input_map dev = Inr m \<Longrightarrow> length m = 16"
  by (cases dev)
    (auto simp: get_input_map_def P16L8_get_input_map_def G16V8MA_get_input_map_def
      G16V8MS_get_input_map_def G16V8AS_get_input_map_def bind_err_eq_Inr)

lemma get_input_names_length:
  "get_input_names dev = Inr names \<Longrightarrow> length names = 32"
  by (auto simp: get_input_names_def bind_err_eq_Inr
      dest!: get_input_map_length input_names_loop_length)

lemma lookup_names_in_range:
  "\<forall>i \<in> set t. i < length names \<Longrightarrow> \<exists>items. lookup_names names t = Inr items"
  by (induction t) auto

lemma stringize_ands_in_range:
  "\<forall>t \<in> set ts. \<forall>i \<in> set t. i < length names \<Longrightarrow>
   \<exists>items. stringize_ands names ts = Inr items"
proof (induction ts)
  case Nil
  then show ?case by simp
next
  case (Cons t ts)
  then obtain a b where "lookup_names names t = Inr a" "stringize_ands names ts = Inr b"
    using lookup_names_in_range [of t names] by auto
  then show ?case by simp
qed

lemma stringize_list_in_range:
  assumes "\<forall>t \<in> set (and_nodes e). \<forall>i \<in> set t. i < length names"
  shows "\<exists>text. stringize_list e names = Inr text"
proof (cases e)
  case (ANDList t)
  then show ?thesis
    using assms lookup_names_in_range [of t names]
    by (auto simp: stringize_list_def and_nodes_def)
next
  case (ORList ts)
  then show ?thesis
    using assms stringize_ands_in_range [of ts names]
    by (auto simp: stringize_list_def and_nodes_def)
qed

lemma macrocell_eqns_from_rows:
  assumes "Inr eqns \<in> set (macrocell_eqns dev)"
  shows "\<exists>rows. from_rows (fusemap (base dev)) rows eqns \<and> (\<forall>r \<in> set rows. row32 2048 r)"
proof (cases dev)
  case (P16L8 d)
  then obtain config where c: "config \<in> set P16L8_macrocell_config"
    and e: "P16L8_get_macrocell_eqns d config = Inr eqns"
    using assms by (auto simp: macrocell_eqns_def)
  show ?thesis
    using P16L8_eqns_from_rows [OF e] P16L8_rows_row32 [OF c, of 2048] P16L8
    by (intro exI [of _ "oe_fuses config # terms_fuses config"]) (simp add: base_def)
next
  case (G16V8MA d)
  then obtain config where c: "config \<in> set G16V8_macrocell_config"
    and e: "G16V8MA_get_macrocell_eqns d config = Inr eqns"
    using assms by (auto simp: macrocell_eqns_def)
  show ?thesis
    using G16V8MA_eqns_from_rows [OF e] G16V8_rows_row32 [OF c, of 2048] G16V8MA
    by (intro exI [of _ "oe_fuses config # terms_fuses config"]) (simp add: base_def)
next
  case (G16V8MS d)
  then obtain config where c: "config \<in> set G16V8_macrocell_config"
    and e: "G16V8MS_get_macrocell_eqns d config = Inr eqns"
    using assms by (auto simp: macrocell_eqns_def)
  show ?thesis
    using G16V8MS_eqns_from_rows [OF e] G16V8_rows_row32 [OF c, of 2048] G16V8MS
    by (intro exI [of _ "oe_fuses config # terms_fuses config"]) (simp add: base_def)
next
  case (G16V8AS d)
  then obtain config where c: "config \<in> set G16V8_macrocell_config"
    and e: "G16V8AS_get_macrocell_eqns d config = Inr eqns"
    using assms by (auto simp: macrocell_eqns_def)
  show ?thesis
    using G16V8AS_eqns_from_rows [OF e] G16V8_rows_row32 [OF c, of 2048] G16V8AS
    by (intro exI [of _ "oe_fuses config # terms_fuses config"]) (simp add: base_def)
qed

lemma G16V8_xor_fuse_bound:
  "config \<in> set G16V8_macrocell_config \<Longrightarrow> xor_fuse config < 2128"
  by (auto simp: G16V8_macrocell_config_def)

lemma find_in_set: "find P xs = Some x \<Longrightarrow> x \<in> set xs"
  by (auto simp: find_Some_iff)

lemma ac1_xor_inverted_returns:
  assumes "2128 \<le> length (fusemap d)"
  shows "\<exists>b. ac1_xor_inverted d p = Inr b"
proof (cases "find (\<lambda>config. pin config = p) G16V8_macrocell_config")
  case None
  then show ?thesis by (auto simp: ac1_xor_inverted_def)
next
  case (Some config)
  then have "config \<in> set G16V8_macrocell_config" by (rule find_in_set)
  then have "ac1_fuse config < length (fusemap d)" "xor_fuse config < length (fusemap d)"
    using G16V8_ac1_fuse_bound G16V8_xor_fuse_bound assms by fastforce+
  then show ?thesis using Some by (auto simp: ac1_xor_inverted_def)
qed

lemma G16V8MA_is_out_inverted_returns:
  assumes "2128 \<le> length (fusemap d)"
  shows "\<exists>b. G16V8MA_is_out_inverted d p = Inr b"
proof (cases "find (\<lambda>config. pin config = p) G16V8_macrocell_config")
  case None
  then show ?thesis by (auto simp: G16V8MA_is_out_inverted_def)
next
  case (Some config)
  then have c: "config \<in> set G16V8_macrocell_config" by (rule find_in_set)
  then have "xor_fuse config < length (fusemap d)"
    using G16V8_xor_fuse_bound assms by fastforce
  moreover have "row32 (length (fusemap d)) (oe_fuses config)"
    using G16V8_rows_row32 [OF c, of "length (fusemap d)"] assms by simp
  ultimately show ?thesis
    using Some by (auto simp: G16V8MA_is_out_inverted_def is_term_nonzero_row32)
qed

lemma P16L8_is_out_inverted_returns:
  assumes "2048 \<le> length (fusemap d)"
  shows "\<exists>b. P16L8_is_out_inverted d p = Inr b"
proof (cases "find (\<lambda>config. pin config = p) P16L8_macrocell_config")
  case None
  then show ?thesis by (auto simp: P16L8_is_out_inverted_def)
next
  case (Some config)
  then have c: "config \<in> set P16L8_macrocell_config" by (rule find_in_set)
  have "row32 (length (fusemap d)) (oe_fuses config)"
    using P16L8_rows_row32 [OF c, of "length (fusemap d)"] assms by simp
  then show ?thesis
    using Some by (auto simp: P16L8_is_out_inverted_def is_term_nonzero_row32)
qed

lemma inverted_returns: "x \<noteq> [] \<Longrightarrow> \<exists>y. inverted x = Inr y"
  by (cases x) (auto simp: inverted_def)

lemma input_names_loop_returns:
  "pins_named d m \<Longrightarrow> \<exists>names. input_names_loop d m = Inr names"
proof (induction d m rule: input_names_loop.induct)
  case (1 d)
  then show ?case by simp
next
  case (2 d p invert rest)
  then have p: "0 < p" "p - 1 < length (pinmap d)" "pinmap d ! (p - 1) \<noteq> []"
    and rest: "pins_named d rest"
    by (auto simp: pins_named_def)
  have n: "get_pin_name d p = Inr (pinmap d ! (p - 1))"
    using p by (simp add: get_pin_name_def)
  obtain y where y: "inverted (pinmap d ! (p - 1)) = Inr y"
    using inverted_returns [OF p(3)] by blast
  obtain names where "input_names_loop d rest = Inr names"
    using "2.IH" rest by blast
  then show ?case using n y by simp
qed

lemma get_input_map_returns:
  assumes "2128 \<le> length (fusemap (base dev))"
  shows "\<exists>m. get_input_map dev = Inr m \<and> (\<forall>p \<in> fst ` set m. 0 < p \<and> p \<le> 20)"
proof (cases dev)
  case (P16L8 d)
  then have "2048 \<le> length (fusemap d)" using assms by (simp add: base_def)
  from P16L8_is_out_inverted_returns [OF this] obtain f
    where "\<And>p. P16L8_is_out_inverted d p = Inr (f p)" by metis
  then show ?thesis using P16L8 by (simp add: get_input_map_def P16L8_get_input_map_def)
next
  case (G16V8MA d)
  then have "2128 \<le> length (fusemap d)" using assms by (simp add: base_def)
  from G16V8MA_is_out_inverted_returns [OF this] obtain f
    where "\<And>p. G16V8MA_is_out_inverted d p = Inr (f p)" by metis
  then show ?thesis using G16V8MA by (simp add: get_input_map_def G16V8MA_get_input_map_def)
next
  case (G16V8MS d)
  then have "2128 \<le> length (fusemap d)" using assms by (simp add: base_def)
  from ac1_xor_inverted_returns [OF this] obtain f
    where "\<And>p. ac1_xor_inverted d p = Inr (f p)" by metis
  then show ?thesis
    using G16V8MS
    by (simp add: get_input_map_def G16V8MS_get_input_map_def G16V8MS_is_out_inverted_def)
next
  case (G16V8AS d)
  then have "2128 \<le> length (fusemap d)" using assms by (simp add: base_def)
  from ac1_xor_inverted_returns [OF this] obtain f
    where "\<And>p. ac1_xor_inverted d p = Inr (f p)" by metis
  then show ?thesis
    using G16V8AS
    by (simp add: get_input_map_def G16V8AS_get_input_map_def G16V8AS_is_out_inverted_def)
qed

lemma get_input_names_returns:
  assumes "2128 \<le> length (fusemap (base dev))"
    and "length (pinmap (base dev)) = 20" and "[] \<notin> set (pinmap (base dev))"
  shows "\<exists>names. get_input_names dev = Inr names"
proof -
  obtain m where m: "get_input_map dev = Inr m" and p: "\<forall>p \<in> fst ` set m. 0 < p \<and> p \<le> 20"
    using get_input_map_returns [OF assms(1)] by blast
  have "pins_named (base dev) m"
    unfolding pins_named_def
  proof
    fix q assume "q \<in> fst ` set m"
    then have q: "0 < q" "q \<le> 20" using p by auto
    then have "pinmap (base dev) ! (q - 1) \<in> set (pinmap (base dev))"
      using assms(2) by (intro nth_mem) simp
    then show "0 < q \<and> q \<le> length (pinmap (base dev)) \<and> pinmap (base dev) ! (q - 1) \<noteq> []"
      using q assms(2,3) by metis
  qed
  then show ?thesis
    using input_names_loop_returns m by (simp add: get_input_names_def)
qed

lemma G16V8MS_one_literal_eqns:
  "G16V8MS_get_macrocell_eqns
     (PALBase_init ((replicate 2194 1)[32 := 0, 2120 := 0, 2192 := 0]) None)
     (G16V8_macrocell_config ! 0) = Inr [(''PIN19.d'', ORList [[0]])]"
proof -
  have "((replicate 2194 (1::int))[32 := 0, 2120 := 0, 2192 := 0]) !
      ac1_fuse (G16V8_macrocell_config ! 0) = 0"
    by (simp add: cell0)
  then show ?thesis
    by (subst G16V8MS_eqns_ac1_zero [OF cell0_in _ pin19]) (simp_all add: live_terms_one_literal)
qed

text \<open>
  Claim C10. For every device variant and every macrocell of its table, every literal
  index in an AND node of the equations that \<open>get_macrocell_eqns\<close> returns lies in
  \<open>[0, 32)\<close>, in strictly increasing order within its node; the table returned by
  \<open>get_input_names\<close> has 32 entries, so rendering the equation against it raises no
  IndexError.
\<close>

theorem literal_indices_in_name_table:
  assumes "Inr eqns \<in> set (macrocell_eqns dev)" and "(name, e) \<in> set eqns"
  shows "(\<forall>t \<in> set (and_nodes e). sorted_wrt (<) t \<and> (\<forall>i \<in> set t. i < 32)) \<and>
         (\<forall>names. get_input_names dev = Inr names \<longrightarrow>
            length names = 32 \<and> (\<exists>text. stringize_list e names = Inr text))"
proof -
  obtain rows where "from_rows (fusemap (base dev)) rows eqns" "\<forall>r \<in> set rows. row32 2048 r"
    using macrocell_eqns_from_rows [OF assms(1)] by blast
  then have bound: "\<forall>t \<in> set (and_nodes e). sorted_wrt (<) t \<and> (\<forall>i \<in> set t. i < 32)"
    using from_rows_bound assms(2) by blast
  have "length names = 32 \<and> (\<exists>text. stringize_list e names = Inr text)"
    if "get_input_names dev = Inr names" for names
  proof -
    have len: "length names = 32" using that by (rule get_input_names_length)
    then show ?thesis using bound stringize_list_in_range [of e names] by simp
  qed
  with bound show ?thesis by blast
qed


theorem literal_indices_in_name_table_witness:
  "Inr [(''PIN19.d'', ORList [[0]])] \<in>
     set (macrocell_eqns
            (G16V8MS (PALBase_init ((replicate 2194 1)[32 := 0, 2120 := 0, 2192 := 0]) None))) \<and>
   (''PIN19.d'', ORList [[0]]) \<in> set [(''PIN19.d'', ORList [[0]])] \<and>
   (\<exists>names.
      get_input_names
        (G16V8MS (PALBase_init ((replicate 2194 1)[32 := 0, 2120 := 0, 2192 := 0]) None)) =
        Inr names \<and>
      length names = 32 \<and> (\<exists>text. stringize_list (ORList [[0]]) names = Inr text))"
proof -
  let ?d = "PALBase_init ((replicate 2194 (1::int))[32 := 0, 2120 := 0, 2192 := 0]) None"
  have "G16V8MS_get_macrocell_eqns ?d (G16V8_macrocell_config ! 0) \<in>
      G16V8MS_get_macrocell_eqns ?d ` set G16V8_macrocell_config"
    using cell0_in by (rule imageI)
  then have a: "Inr [(''PIN19.d'', ORList [[0]])] \<in> set (macrocell_eqns (G16V8MS ?d))"
    by (simp add: macrocell_eqns_def G16V8MS_one_literal_eqns)
  have b: "(''PIN19.d'', ORList [[0]]) \<in> set [(''PIN19.d'', ORList [[0]])]" by simp
  obtain names where n: "get_input_names (G16V8MS ?d) = Inr names"
    using get_input_names_returns [of "G16V8MS ?d"] by (auto simp: base_def default_pinmap)
  show ?thesis
    using literal_indices_in_name_table [OF a b] a b n by blast
qed

section \<open>Properties of the tokenizer\<close>

lemma read_command_returns_nonempty:
  assumes "read_command buffer fp = Some y"
  shows "fp \<noteq> []"
proof (rule read_command.raw_induct [where P = "\<lambda>buffer fp y. fp \<noteq> []", OF _ assms])
  fix f :: "string \<Rightarrow> string \<Rightarrow> gen_step option" and b fp' y'
  assume IH: "\<And>b fp' y'. f b fp' = Some y' \<Longrightarrow> fp' \<noteq> []"
    and step: "(case fp' of [] \<Rightarrow> f b []
       | ch # fp'' \<Rightarrow>
           if ch = CHR ''*'' then Some (Yield (lstrip b) fp'')
           else if ch = CHR 0x03 then Some Stop
           else f (b @ [fold_newline ch]) fp'') = Some y'"
  show "fp' \<noteq> []"
  proof
    assume "fp' = []"
    with step have "f b [] = Some y'" by simp
    then show False using IH by blast
  qed
qed

lemma read_command_Nil: "read_command buffer [] = None"
  using read_command_returns_nonempty [of buffer "[]"] by (cases "read_command buffer []") auto

lemma read_command_Cons:
  "read_command buffer (ch # fp) =
     (if ch = CHR ''*'' then Some (Yield (lstrip buffer) fp)
      else if ch = CHR 0x03 then Some Stop
      else read_command (buffer @ [fold_newline ch]) fp)"
  by (subst read_command.simps) simp

lemma read_command_unterminated:
  "CHR ''*'' \<notin> set fp \<Longrightarrow> CHR 0x03 \<notin> set fp \<Longrightarrow> read_command buffer fp = None"
  by (induction fp arbitrary: buffer) (auto simp: read_command_Nil read_command_Cons)

lemma read_command_field:
  "CHR ''*'' \<notin> set f \<Longrightarrow> CHR 0x03 \<notin> set f \<Longrightarrow>
   read_command buffer (f @ CHR ''*'' # rest) =
     Some (Yield (lstrip (buffer @ map fold_newline f)) rest)"
  by (induction f arbitrary: buffer) (auto simp: read_command_Cons)

lemma read_command_etx:
  "CHR ''*'' \<notin> set f \<Longrightarrow> CHR 0x03 \<notin> set f \<Longrightarrow>
   read_command buffer (f @ CHR 0x03 # rest) = Some Stop"
  by (induction f arbitrary: buffer) (auto simp: read_command_Cons)

lemma skip_preamble_star:
  "CHR ''*'' \<notin> set pre \<Longrightarrow> skip_preamble (pre @ CHR ''*'' # rest) = Some rest"
  by (induction pre) auto

lemma skip_preamble_none: "CHR ''*'' \<notin> set fp \<Longrightarrow> skip_preamble fp = None"
  by (induction fp) auto

lemma skip_preamble_suffix: "skip_preamble fp = Some rest \<Longrightarrow> set rest \<subseteq> set fp"
  by (induction fp) (auto split: if_splits)

lemma command_loop_without_etx:
  "CHR 0x03 \<notin> set fp \<Longrightarrow>
   command_loop st fp = None \<or> (\<exists>e. command_loop st fp = Some (Inl e))"
proof (induction "length fp" arbitrary: fp st rule: less_induct)
  case less
  show ?case
  proof (cases "CHR ''*'' \<in> set fp")
    case False
    then have "read_command [] fp = None"
      using less.prems by (simp add: read_command_unterminated)
    then show ?thesis by (subst command_loop.simps) simp
  next
    case True
    then obtain f rest where fp: "fp = f @ CHR ''*'' # rest" and f: "CHR ''*'' \<notin> set f"
      by (meson split_list_first)
    have etx: "CHR 0x03 \<notin> set f" "CHR 0x03 \<notin> set rest" using less.prems fp by auto
    have rd: "read_command [] fp = Some (Yield (lstrip ([] @ map fold_newline f)) rest)"
      unfolding fp using f etx(1) by (rule read_command_field)
    show ?thesis
    proof (cases "process_cmd st (lstrip (map fold_newline f))")
      case (Inl e)
      then show ?thesis using rd by (subst command_loop.simps) simp
    next
      case (Inr st')
      have "length rest < length fp" using fp by simp
      from less.hyps [OF this etx(2), of st'] show ?thesis
        using rd Inr by (subst (1 2) command_loop.simps) simp
    qed
  qed
qed

text \<open>
  Claim C8 says that parsing terminates on every finite input, also when the final
  command is terminated neither by \<open>*\<close> nor by ETX. The first loop of \<open>jedec_commands\<close>
  returns at the end of the stream; the inner loop of the second has no such test. On
  a text that ends inside a command, \<open>fp.read(1)\<close> returns the empty string forever and
  \<open>load_jedec\<close> never returns: here for a preamble, the first \<open>*\<close> and an unterminated
  final command.
\<close>

theorem load_jedec_unterminated_diverges:
  assumes "CHR ''*'' \<notin> set pre" and "CHR ''*'' \<notin> set final" and "CHR 0x03 \<notin> set final"
  shows "load_jedec (pre @ CHR ''*'' # final) = None"
proof -
  have "read_command [] final = None"
    using assms(2,3) by (rule read_command_unterminated)
  then have "command_loop initial_state final = None"
    by (subst command_loop.simps) simp
  then show ?thesis
    by (simp add: load_jedec_def skip_preamble_star [OF assms(1)])
qed

theorem load_jedec_unterminated_diverges_witness:
  "CHR ''*'' \<notin> set ''header'' \<and> CHR ''*'' \<notin> set ''QF4'' \<and> CHR 0x03 \<notin> set ''QF4'' \<and>
   load_jedec ''header*QF4'' = None"
proof -
  have a: "CHR ''*'' \<notin> set ''header''" and b: "CHR ''*'' \<notin> set ''QF4''"
    and c: "CHR 0x03 \<notin> set ''QF4''" by simp_all
  show ?thesis
    using load_jedec_unterminated_diverges [OF a b c] a b c by simp
qed

lemma load_jedec_without_etx:
  assumes "skip_preamble text = Some rest" and "CHR 0x03 \<notin> set rest"
  shows "\<forall>fm. load_jedec text \<noteq> Some (Inr fm)"
  using command_loop_without_etx [OF assms(2), of initial_state] assms(1)
  by (auto simp: load_jedec_def)

section \<open>Properties of the parser on well-formed input\<close>

lemma command_loop_fields:
  assumes "\<forall>f \<in> set texts. CHR ''*'' \<notin> set f \<and> CHR 0x03 \<notin> set f"
    and "CHR ''*'' \<notin> set tail" and "CHR 0x03 \<notin> set tail"
  shows "command_loop st (concat (map (\<lambda>f. f @ ''*'') texts) @ tail @ CHR 0x03 # trailer) =
         Some (run_cmds st (map (\<lambda>f. lstrip (map fold_newline f)) texts))"
  using assms(1)
proof (induction texts arbitrary: st)
  case Nil
  have "read_command [] (tail @ CHR 0x03 # trailer) = Some Stop"
    using assms(2,3) by (rule read_command_etx)
  then show ?case by (subst command_loop.simps) simp
next
  case (Cons f texts)
  have f: "CHR ''*'' \<notin> set f" "CHR 0x03 \<notin> set f" using Cons.prems by auto
  let ?rest = "concat (map (\<lambda>f. f @ ''*'') texts) @ tail @ CHR 0x03 # trailer"
  have rd: "read_command [] (f @ CHR ''*'' # ?rest) =
      Some (Yield (lstrip ([] @ map fold_newline f)) ?rest)"
    using f by (rule read_command_field)
  have IH: "\<And>st. command_loop st ?rest =
      Some (run_cmds st (map (\<lambda>f. lstrip (map fold_newline f)) texts))"
    using Cons.IH Cons.prems by simp
  show ?case
  proof (cases "process_cmd st (lstrip (map fold_newline f))")
    case (Inl e)
    then show ?thesis using rd by (subst command_loop.simps) simp
  next
    case (Inr st')
    then show ?thesis using rd IH [of st'] by (subst command_loop.simps) simp
  qed
qed

lemma is_digit_not_space:
  "is_digit c \<Longrightarrow> \<not> int_space c \<and> \<not> is_space c \<and> c \<noteq> CHR ''-'' \<and> c \<noteq> CHR ''+'' \<and> c \<noteq> CHR ''_''
     \<and> c \<noteq> CHR '' ''"
  by (auto simp: is_digit_def int_space_def is_space_def)

lemma underscores_ok_digits: "list_all is_digit ds \<Longrightarrow> ds \<noteq> [] \<Longrightarrow> underscores_ok ds"
  by (induction ds rule: underscores_ok.induct) auto

lemma foldl_digits:
  "list_all is_digit ds \<Longrightarrow>
   foldl (\<lambda>a c. 10 * a + digit_val c) (int a) ds =
   int (foldl (\<lambda>a c. 10 * a + (of_char c - 48)) a ds)"
proof (induction ds arbitrary: a)
  case Nil
  then show ?case by simp
next
  case (Cons c ds)
  then have "48 \<le> (of_char c :: nat)" by (simp add: is_digit_def)
  then have "10 * int a + digit_val c = int (10 * a + (of_char c - 48))"
    by (simp add: digit_val_def)
  moreover have "list_all is_digit ds" using Cons.prems by simp
  ultimately show ?case using Cons.IH [of "10 * a + (of_char c - 48)"] by simp
qed

lemma py_int_digits:
  assumes "list_all is_digit ds" and "ds \<noteq> []"
  shows "py_int ds = Inr (int (dec_value ds))"
proof -
  have all: "\<forall>c \<in> set ds. is_digit c" using assms(1) by (simp add: list_all_iff)
  have hd: "is_digit (hd ds)" using all assms(2) by simp
  have t: "dropWhile int_space ds = ds"
    using hd is_digit_not_space assms(2) by (cases ds) auto
  have tw: "takeWhile (\<lambda>c. is_digit c \<or> c = CHR ''_'') ds = ds"
    using all by simp
  have dw: "dropWhile (\<lambda>c. is_digit c \<or> c = CHR ''_'') ds = []"
    using all by simp
  have f: "filter is_digit ds = ds" using all by simp
  have sign: "hd ds \<noteq> CHR ''-''" "hd ds \<noteq> CHR ''+''" using hd is_digit_not_space by auto
  show ?thesis
    using foldl_digits [OF assms(1), of 0] underscores_ok_digits [OF assms]
    by (simp add: py_int_def t tw dw f sign hd assms(2) dec_value_def)
qed

lemma take1_of_take2: "take 2 c = [a, b] \<Longrightarrow> take 1 c = [a]"
  by (cases c) (auto split: if_splits)

lemma process_cmd_QF:
  assumes "wf_QF cmd"
  shows "process_cmd st cmd = Inr (st\<lparr>num_fuses := Some (int (dec_value (drop 2 cmd)))\<rparr>)"
  using assms py_int_digits [of "drop 2 cmd"] by (simp add: wf_QF_def process_cmd_def)

lemma py_int_bit: "is_bit c \<Longrightarrow> py_int [c] = Inr (digit_val c)"
  by (auto simp: is_bit_def py_int_def int_space_def is_digit_def digit_val_def)

lemma dec_value_bit: "is_bit c \<Longrightarrow> int (dec_value [c]) = digit_val c"
  by (auto simp: is_bit_def dec_value_def digit_val_def)

lemma process_cmd_F:
  assumes "wf_F cmd"
  shows "process_cmd st cmd = Inr (st\<lparr>default_fuse := int (dec_value (drop 1 cmd))\<rparr>)"
proof -
  obtain c where c: "cmd = [CHR ''F'', c]" "is_bit c"
    using assms by (auto simp: wf_F_def is_bit_def)
  show ?thesis
    using c(2) by (simp add: c(1) process_cmd_def py_int_bit dec_value_bit)
qed

lemma process_cmd_L:
  assumes "take 1 cmd = ''L''"
  shows "process_cmd st cmd = Inr (st\<lparr>fuse_list := fuse_list st @ [drop 1 cmd]\<rparr>)"
proof -
  have "take 2 cmd \<noteq> ''QF''" using assms take1_of_take2 [of cmd "CHR ''Q''" "CHR ''F''"] by auto
  then show ?thesis using assms by (simp add: process_cmd_def)
qed

lemma process_cmd_ignored:
  "wf_ignored cmd \<Longrightarrow> process_cmd st cmd = Inr st"
  by (simp add: wf_ignored_def process_cmd_def)

lemma wf_QF_prefix: "wf_QF cmd \<Longrightarrow> take 2 cmd = ''QF'' \<and> take 1 cmd \<noteq> ''F'' \<and> take 1 cmd \<noteq> ''L''"
  using take1_of_take2 [of cmd "CHR ''Q''" "CHR ''F''"] by (auto simp: wf_QF_def)

lemma wf_F_prefix: "wf_F cmd \<Longrightarrow> take 2 cmd \<noteq> ''QF'' \<and> take 1 cmd = ''F'' \<and> take 1 cmd \<noteq> ''L''"
  by (auto simp: wf_F_def)

lemma wf_L_prefix: "wf_L cmd \<Longrightarrow> take 2 cmd \<noteq> ''QF'' \<and> take 1 cmd \<noteq> ''F'' \<and> take 1 cmd = ''L''"
  using take1_of_take2 [of cmd "CHR ''Q''" "CHR ''F''"] by (auto simp: wf_L_def)

lemma final_state_Nil: "final_state st [] = st"
  by (simp add: final_state_def declared_count_def)

lemma final_state_QF:
  "wf_QF c \<Longrightarrow>
   final_state (st\<lparr>num_fuses := Some (int (dec_value (drop 2 c)))\<rparr>) cmds = final_state st (c # cmds)"
  using wf_QF_prefix [of c]
  by (simp add: final_state_def declared_count_def declared_default_def)

lemma final_state_F:
  "wf_F c \<Longrightarrow>
   final_state (st\<lparr>default_fuse := int (dec_value (drop 1 c))\<rparr>) cmds = final_state st (c # cmds)"
  using wf_F_prefix [of c]
  by (simp add: final_state_def declared_count_def declared_default_def)

lemma final_state_L:
  "wf_L c \<Longrightarrow>
   final_state (st\<lparr>fuse_list := fuse_list st @ [drop 1 c]\<rparr>) cmds = final_state st (c # cmds)"
  using wf_L_prefix [of c]
  by (simp add: final_state_def declared_count_def declared_default_def)

lemma final_state_ignored:
  "wf_ignored c \<Longrightarrow> final_state st cmds = final_state st (c # cmds)"
  by (simp add: final_state_def declared_count_def declared_default_def wf_ignored_def)

lemma run_cmds_well_formed:
  "\<forall>c \<in> set cmds. wf_cmd c \<Longrightarrow> run_cmds st cmds = Inr (final_state st cmds)"
proof (induction cmds arbitrary: st)
  case Nil
  then show ?case by (simp add: final_state_Nil)
next
  case (Cons c cmds)
  then have IH: "\<And>st. run_cmds st cmds = Inr (final_state st cmds)" by simp
  from Cons.prems have "wf_QF c \<or> wf_F c \<or> wf_L c \<or> wf_ignored c" by (simp add: wf_cmd_def)
  then show ?case
  proof (elim disjE)
    assume "wf_QF c"
    then show ?thesis by (simp add: process_cmd_QF IH final_state_QF)
  next
    assume "wf_F c"
    then show ?thesis using final_state_F [of c st cmds] by (simp add: process_cmd_F IH)
  next
    assume w: "wf_L c"
    then have "take 1 c = ''L''" using wf_L_prefix by blast
    then show ?thesis using final_state_L [OF w, of st cmds] by (simp add: process_cmd_L IH)
  next
    assume "wf_ignored c"
    then show ?thesis using final_state_ignored [of c st cmds] by (simp add: process_cmd_ignored IH)
  qed
qed

lemma overwrite_length [simp]: "length (overwrite fm pos bs) = length fm"
  by (induction bs arbitrary: fm pos) auto

lemma overwrite_nth:
  "pos + length bs \<le> length fm \<Longrightarrow> i < length fm \<Longrightarrow>
   overwrite fm pos bs ! i = (if pos \<le> i \<and> i < pos + length bs then bs ! (i - pos) else fm ! i)"
proof (induction bs arbitrary: fm pos)
  case Nil
  then show ?case by simp
next
  case (Cons b bs)
  have "overwrite (fm[pos := b]) (Suc pos) bs ! i =
      (if Suc pos \<le> i \<and> i < Suc pos + length bs then bs ! (i - Suc pos)
       else fm[pos := b] ! i)"
    using Cons.prems by (intro Cons.IH) simp_all
  then show ?case
    using Cons.prems by (auto simp: nth_list_update nth_Cons' Suc_diff_le)
qed

lemma setitem_in_range: "pos < length fm \<Longrightarrow> setitem fm (int pos) v = Inr (fm[pos := v])"
  by (simp add: setitem_def)

lemma write_fuses_bits:
  "\<forall>c \<in> set cs. is_bit c \<Longrightarrow> pos + length cs \<le> length fm \<Longrightarrow>
   write_fuses fm (int pos) cs = Inr (overwrite fm pos (map digit_val cs))"
proof (induction cs arbitrary: fm pos)
  case Nil
  then show ?case by simp
next
  case (Cons c cs)
  have eq: "int pos + 1 = int (Suc pos)" by simp
  have step: "write_fuses (fm[pos := digit_val c]) (int (Suc pos)) cs =
      Inr (overwrite (fm[pos := digit_val c]) (Suc pos) (map digit_val cs))"
    using Cons.prems by (intro Cons.IH) simp_all
  have c: "py_int [c] = Inr (digit_val c)" using Cons.prems by (simp add: py_int_bit)
  have s: "setitem fm (int pos) (digit_val c) = Inr (fm[pos := digit_val c])"
    using Cons.prems by (intro setitem_in_range) simp
  show ?case
    unfolding write_fuses.simps eq c s bind_err_Inr step by simp
qed

lemma is_bit_not_space: "is_bit c \<Longrightarrow> \<not> is_space c \<and> c \<noteq> CHR '' ''"
  by (auto simp: is_bit_def is_space_def)

lemma space_is_space: "is_space (CHR '' '')" "\<not> is_bit (CHR '' '')" "\<not> is_digit (CHR '' '')"
  by (simp_all add: is_space_def is_bit_def is_digit_def)

lemma L_body_split:
  assumes "wf_L cmd"
  shows "split_maxsplit1 (drop 1 cmd) =
           [takeWhile is_digit (drop 1 cmd),
            dropWhile (\<lambda>c. c = CHR '' '') (dropWhile is_digit (drop 1 cmd))]"
proof -
  define body where "body = drop 1 cmd"
  define p where "p = takeWhile is_digit body"
  define r where "r = dropWhile is_digit body"
  define sp where "sp = takeWhile (\<lambda>c. c = CHR '' '') r"
  define d where "d = dropWhile (\<lambda>c. c = CHR '' '') r"
  have wf: "p \<noteq> []" "r \<noteq> []" "hd r = CHR '' ''" "d \<noteq> []"
    "list_all (\<lambda>c. is_bit c \<or> c = CHR '' '') d"
    using assms unfolding wf_L_def Let_def body_def p_def r_def d_def by simp_all
  have body: "body = p @ r" unfolding p_def r_def by simp
  have pns: "\<And>c. c \<in> set p \<Longrightarrow> \<not> is_space c"
    unfolding p_def using is_digit_not_space by (blast dest: set_takeWhileD)
  have r: "r = sp @ d" unfolding sp_def d_def by simp
  have sps: "\<And>c. c \<in> set sp \<Longrightarrow> is_space c"
    unfolding sp_def using space_is_space(1) by (auto dest: set_takeWhileD)
  have "sp \<noteq> []" using wf(2,3) unfolding sp_def by (cases r) simp_all
  then obtain sp' where sp: "sp = CHR '' '' # sp'"
    using wf(3) r by (cases sp) simp_all
  have "\<not> (hd d = CHR '' '')" using wf(4) unfolding d_def by (rule hd_dropWhile)
  moreover have "hd d \<in> set d" using wf(4) by simp
  ultimately have "is_bit (hd d)" using wf(5) unfolding list_all_iff by blast
  then have "\<not> is_space (hd d)" using is_bit_not_space by blast
  then obtain b d' where d: "d = b # d'" "\<not> is_space b" using wf(4) by (cases d) simp_all
  obtain a p' where p: "p = a # p'" "\<not> is_space a" using wf(1) pns by (cases p) simp_all
  have t: "dropWhile is_space body = body"
    unfolding body p using p(2) by simp
  have w: "takeWhile (\<lambda>c. \<not> is_space c) (p @ sp @ d) = p"
    unfolding sp using pns space_is_space(1) by (simp add: takeWhile_tail)
  have dw: "dropWhile (\<lambda>c. \<not> is_space c) (p @ sp @ d) = sp @ d"
    unfolding sp using pns space_is_space(1) by (simp add: dropWhile_append3)
  have rest: "dropWhile is_space (sp @ d) = d"
    using sps d by (simp add: dropWhile_append2)
  have "split_maxsplit1 body = [p, d]"
    unfolding split_maxsplit1_def Let_def t unfolding body r w dw rest
    using p(1) d(1) by simp
  then show ?thesis unfolding body_def p_def r_def d_def .
qed

lemma L_body_bits:
  assumes "wf_L cmd"
  shows "filter (\<lambda>ch. ch \<noteq> CHR '' '')
           (dropWhile (\<lambda>c. c = CHR '' '') (dropWhile is_digit (drop 1 cmd))) =
         filter is_bit (dropWhile is_digit (drop 1 cmd))"
proof -
  define r where "r = dropWhile is_digit (drop 1 cmd)"
  define sp where "sp = takeWhile (\<lambda>c. c = CHR '' '') r"
  define d where "d = dropWhile (\<lambda>c. c = CHR '' '') r"
  have all: "\<And>c. c \<in> set d \<Longrightarrow> is_bit c \<or> c = CHR '' ''"
    using assms unfolding wf_L_def Let_def r_def d_def list_all_iff by blast
  have "filter (\<lambda>ch. ch \<noteq> CHR '' '') d = filter is_bit d"
    using all is_bit_not_space by (intro filter_cong) auto
  moreover have r: "r = sp @ d" unfolding sp_def d_def by simp
  moreover have "filter is_bit sp = []"
    unfolding sp_def using space_is_space(2) by (auto simp: filter_empty_conv dest: set_takeWhileD)
  ultimately have "filter (\<lambda>ch. ch \<noteq> CHR '' '') d = filter is_bit r" by simp
  then show ?thesis unfolding d_def r_def .
qed

lemma apply_fuse_list_L:
  assumes "wf_L cmd" and "L_pos cmd + length (L_bits cmd) \<le> length fm"
  shows "apply_fuse_list fm (drop 1 cmd # rest) =
         apply_fuse_list (overwrite fm (L_pos cmd) (L_bits cmd)) rest"
proof -
  define p where "p = takeWhile is_digit (drop 1 cmd)"
  define d where "d = dropWhile (\<lambda>c. c = CHR '' '') (dropWhile is_digit (drop 1 cmd))"
  define cs where "cs = filter is_bit (dropWhile is_digit (drop 1 cmd))"
  have p: "p \<noteq> []" "list_all is_digit p"
    using assms(1) unfolding wf_L_def Let_def p_def list_all_iff
    by (auto dest: set_takeWhileD)
  have pos: "py_int p = Inr (int (L_pos cmd))"
    using py_int_digits [OF p(2,1)] unfolding L_pos_def p_def .
  have bits: "L_bits cmd = map digit_val cs" unfolding L_bits_def cs_def ..
  have split: "split_maxsplit1 (drop 1 cmd) = [p, d]"
    unfolding p_def d_def using assms(1) by (rule L_body_split)
  have data: "filter (\<lambda>ch. ch \<noteq> CHR '' '') d = cs"
    unfolding d_def cs_def using assms(1) by (rule L_body_bits)
  have wr: "write_fuses fm (int (L_pos cmd)) cs = Inr (overwrite fm (L_pos cmd) (L_bits cmd))"
    unfolding bits using assms(2) unfolding bits
    by (intro write_fuses_bits) (auto simp: cs_def)
  show ?thesis
    unfolding apply_fuse_list.simps split list.case pos bind_err_Inr data wr ..
qed

lemma apply_fuse_list_well_formed:
  "\<forall>c \<in> set ls. wf_L c \<and> L_pos c + length (L_bits c) \<le> length fm \<Longrightarrow>
   apply_fuse_list fm (map (drop 1) ls) =
     Inr (foldl (\<lambda>fm w. overwrite fm (fst w) (snd w)) fm (map (\<lambda>c. (L_pos c, L_bits c)) ls))"
proof (induction ls arbitrary: fm)
  case Nil
  then show ?case by simp
next
  case (Cons c ls)
  have "apply_fuse_list fm (map (drop 1) (c # ls)) =
      apply_fuse_list (overwrite fm (L_pos c) (L_bits c)) (map (drop 1) ls)"
    using Cons.prems apply_fuse_list_L [of c fm "map (drop 1) ls"] by simp
  also have "\<dots> = Inr (foldl (\<lambda>fm w. overwrite fm (fst w) (snd w))
      (overwrite fm (L_pos c) (L_bits c)) (map (\<lambda>c. (L_pos c, L_bits c)) ls))"
    using Cons.prems by (intro Cons.IH) simp
  finally show ?case by simp
qed

lemma foldl_overwrite_length [simp]:
  "length (foldl (\<lambda>fm w. overwrite fm (fst w) (snd w)) fm ws) = length fm"
  by (induction ws arbitrary: fm) auto

lemma foldl_overwrite_nth:
  "\<forall>w \<in> set ws. fst w + length (snd w) \<le> length fm \<Longrightarrow> i < length fm \<Longrightarrow>
   foldl (\<lambda>fm w. overwrite fm (fst w) (snd w)) fm ws ! i =
     (if filter (covers i) ws = [] then fm ! i
      else snd (last (filter (covers i) ws)) ! (i - fst (last (filter (covers i) ws))))"
proof (induction ws rule: rev_induct)
  case Nil
  then show ?case by simp
next
  case (snoc w ws)
  let ?fm = "foldl (\<lambda>fm w. overwrite fm (fst w) (snd w)) fm ws"
  have "overwrite ?fm (fst w) (snd w) ! i =
      (if fst w \<le> i \<and> i < fst w + length (snd w) then snd w ! (i - fst w) else ?fm ! i)"
    using snoc.prems by (intro overwrite_nth) simp_all
  then have "overwrite ?fm (fst w) (snd w) ! i =
      (if covers i w then snd w ! (i - fst w) else ?fm ! i)"
    by (simp add: covers_def)
  then show ?case using snoc by simp
qed

lemma wf_cmd_L:
  assumes "wf_cmd c" and "take 1 c = ''L''"
  shows "wf_L c"
  using assms wf_QF_prefix [of c] wf_F_prefix [of c]
  by (auto simp: wf_cmd_def wf_ignored_def)

lemma build_fusemap_well_formed:
  assumes "\<forall>c \<in> set cmds. wf_cmd c"
    and "declared_count cmds = Some n"
    and "\<forall>w \<in> set (fuse_writes cmds). fst w + length (snd w) \<le> n"
  shows "build_fusemap (final_state initial_state cmds) =
         Inr (foldl (\<lambda>fm w. overwrite fm (fst w) (snd w))
                (replicate n (declared_default cmds)) (fuse_writes cmds))"
proof -
  let ?ls = "filter (\<lambda>c. take 1 c = ''L'') cmds"
  have st: "num_fuses (final_state initial_state cmds) = Some (int n)"
    "default_fuse (final_state initial_state cmds) = declared_default cmds"
    "fuse_list (final_state initial_state cmds) = map (drop 1) ?ls"
    using assms(2) by (simp_all add: final_state_def initial_state_def declared_default_def)
  have "\<forall>c \<in> set ?ls. wf_L c \<and>
      L_pos c + length (L_bits c) \<le> length (replicate n (declared_default cmds))"
    using assms(1,3) wf_cmd_L by (auto simp: fuse_writes_def)
  then have "apply_fuse_list (replicate n (declared_default cmds)) (map (drop 1) ?ls) =
      Inr (foldl (\<lambda>fm w. overwrite fm (fst w) (snd w)) (replicate n (declared_default cmds))
             (map (\<lambda>c. (L_pos c, L_bits c)) ?ls))"
    by (rule apply_fuse_list_well_formed)
  then show ?thesis
    unfolding build_fusemap_def st fuse_writes_def by simp
qed



end
